(* ===== verification/PyPrelude.thy ===== *)
theory PyPrelude
  imports Main
begin

text \<open>
  Shared vocabulary of the development: the Python exceptions the modelled code can
  raise, the CPython built-ins the sources call on strings and lists (\<open>str.center\<close>,
  \<open>str.index\<close>, \<open>str.join\<close>, \<open>str * int\<close>, a list comprehension whose element
  computation may raise), and the generic lemmas on them that the component theories
  use.  The built-ins are modelled from CPython's implementation (\<open>unicode_center_impl\<close>
  computes \<open>left = marg / 2 + (marg & width & 1)\<close>); Python strings are \<open>string\<close>,
  one \<open>char\<close> per code point, which is exact for the ASCII labels the renderer is
  meant for.
\<close>

unbundle bit_operations_syntax

named_theorems py_simps \<open>characteristic equations of the modelled Python built-ins\<close>

section \<open>Exceptions\<close>

datatype py_error = IndexError | ValueError | AttributeError | RecursionError | TypeError
  | ZeroDivisionError

type_synonym 'a py_result = "py_error + 'a"

text \<open>A list comprehension \<open>[f(x) for x in xs]\<close>: elements are computed left to right
  and the first exception propagates.\<close>

fun py_seq :: "('e + 'a) list \<Rightarrow> 'e + 'a list" where
  "py_seq [] = Inr []"
| "py_seq (Inl e # rs) = Inl e"
| "py_seq (Inr x # rs) = (case py_seq rs of Inl e \<Rightarrow> Inl e | Inr xs \<Rightarrow> Inr (x # xs))"

text \<open>Sequencing of computations that may raise: the exception of the first one that
  raises is the result.\<close>

definition py_bind :: "'e + 'a \<Rightarrow> ('a \<Rightarrow> 'e + 'b) \<Rightarrow> 'e + 'b" where
  "py_bind r f = (case r of Inl e \<Rightarrow> Inl e | Inr x \<Rightarrow> f x)"

lemma py_bind_simps [simp]: "py_bind (Inl e) f = Inl e" "py_bind (Inr x) f = f x"
  by (simp_all add: py_bind_def)

section \<open>String built-ins\<close>

text \<open>\<open>s * n\<close>: \<open>n\<close> copies, none when \<open>n \<le> 0\<close>.\<close>

definition py_repeat :: "int \<Rightarrow> 'a list \<Rightarrow> 'a list" where
  "py_repeat n s = concat (replicate (nat n) s)"

text \<open>\<open>s.center(width)\<close> with the fill character a space.\<close>

definition py_center :: "int \<Rightarrow> string \<Rightarrow> string" where
  "py_center width s =
    (let n = int (length s) in
     if width \<le> n then s
     else let marg = width - n; left = marg div 2 + (marg AND width AND 1)
          in py_repeat left '' '' @ s @ py_repeat (marg - left) '' '')"

text \<open>\<open>sep.join(xs)\<close>.\<close>

fun py_join :: "'a list \<Rightarrow> 'a list list \<Rightarrow> 'a list" where
  "py_join sep [] = []"
| "py_join sep [x] = x"
| "py_join sep (x # y # xs) = x @ sep @ py_join sep (y # xs)"

text \<open>The lowest index at which \<open>sub\<close> occurs in \<open>s\<close>, as CPython's substring search
  returns it; \<open>s.index(sub)\<close> raises \<open>ValueError\<close> when there is none.\<close>

fun find_sub :: "'a list \<Rightarrow> 'a list \<Rightarrow> nat option" where
  "find_sub sub [] = (if sub = [] then Some 0 else None)"
| "find_sub sub (c # s) =
     (if take (length sub) (c # s) = sub then Some 0 else map_option Suc (find_sub sub s))"

definition py_index :: "string \<Rightarrow> string \<Rightarrow> int py_result" where
  "py_index s sub = (case find_sub sub s of None \<Rightarrow> Inl ValueError | Some i \<Rightarrow> Inr (int i))"

text \<open>The left padding \<open>str.center\<close> adds, in \<open>nat\<close>: \<open>width - n\<close> is \<open>0\<close> when the
  string is already wide enough, and then so is the padding.\<close>

definition center_left :: "nat \<Rightarrow> nat \<Rightarrow> nat" where
  "center_left w n = (w - n) div 2 + (if odd (w - n) \<and> odd w then 1 else 0)"

text \<open>Positions of a character in a string, used to state where connectors are drawn.\<close>

definition positions :: "'a \<Rightarrow> 'a list \<Rightarrow> nat list" where
  "positions c s = filter (\<lambda>i. s ! i = c) [0..<length s]"

abbreviation spaces :: "nat \<Rightarrow> string" where
  "spaces n \<equiv> replicate n CHR '' ''"

section \<open>Lemmas on the built-ins\<close>

lemma py_seq_map_Inr [simp]: "py_seq (map Inr xs) = Inr xs"
  by (induction xs) auto

lemma py_seq_Inr_iff [simp]:
  "py_seq rs = Inr xs \<longleftrightarrow> rs = map Inr xs"
proof (induction rs arbitrary: xs rule: py_seq.induct)
  case (3 x rs)
  then show ?case by (cases xs) (auto split: sum.splits)
qed auto

lemma py_repeat_single [py_simps]: "py_repeat n [c] = replicate (nat n) c"
  by (induction "nat n" arbitrary: n) (simp_all add: py_repeat_def)

lemma length_py_repeat [simp]: "length (py_repeat n s) = nat n * length s"
  by (simp add: py_repeat_def length_concat sum_list_replicate)

lemma and_one_int: "(m::int) AND w AND 1 = (if odd m \<and> odd w then 1 else 0)"
  by (simp add: and_one_eq mod2_eq_if and.assoc even_and_iff)

lemma py_center_nat [py_simps]:
  "py_center (int w) s =
     spaces (center_left w (length s)) @ s @ spaces (w - length s - center_left w (length s))"
proof (cases "w \<le> length s")
  case True
  then show ?thesis by (simp add: py_center_def center_left_def)
next
  case False
  define d where "d = w - length s"
  have m: "int w - int (length s) = int d" using False by (simp add: d_def)
  have h: "int d div 2 = int (d div 2)" by (simp add: zdiv_int)
  have o: "odd (int d) = odd d" "odd (int w) = odd w" by simp_all
  have l: "int d div 2 + (if odd d \<and> odd w then 1 else 0) = int (center_left w (length s))"
    by (simp add: center_left_def d_def[symmetric] h)
  have r: "nat (int d - int (center_left w (length s))) = w - length s - center_left w (length s)"
    by (simp add: d_def)
  from False show ?thesis
    by (simp add: py_center_def Let_def and_one_int py_simps m o l r del: of_nat_diff)
qed

lemma center_left_le: "center_left w n \<le> w - n"
proof -
  have "d div 2 + (if odd d \<and> odd w then 1 else 0) \<le> d" for d :: nat
    by (cases "even d") (auto elim!: evenE oddE)
  from this [of "w - n"] show ?thesis unfolding center_left_def .
qed

lemma center_left_one [simp]:
  "center_left w 1 = (w - 1) div 2" "center_left w (Suc 0) = (w - 1) div 2"
  by (cases w; simp add: center_left_def)+

lemma center_left_label:
  assumes "1 \<le> n" "n \<le> w"
  shows "center_left w n + (n - 1) div 2 = (w - 1) div 2"
proof -
  obtain d where w: "w = n + d" using assms(2) le_Suc_ex by blast
  have "d div 2 + (if odd d \<and> odd (n + d) then 1 else 0) + (n - 1) div 2 = (n + d - 1) div 2"
    using assms(1) by (cases "even d"; cases "even n") (auto elim!: evenE oddE)
  then show ?thesis by (simp add: center_left_def w)
qed
lemma length_py_center_nat [simp]: "length (py_center (int w) s) = max w (length s)"
  using center_left_le [of w "length s"] by (simp add: py_center_nat)

lemma find_sub_char: "c \<notin> set xs \<Longrightarrow> find_sub [c] (xs @ c # ys) = Some (length xs)"
  by (induction xs) auto

lemma take_spaces_prefix:
  assumes eq: "take (length s) (spaces (Suc k) @ s @ r) = s"
  shows "\<forall>c\<in>set s. c = CHR '' ''"
proof -
  have "s ! i = CHR '' ''" if "i < length s" for i
    using that
  proof (induction i rule: less_induct)
    case (less i)
    have "s ! i = (spaces (Suc k) @ s @ r) ! i"
      using eq less.prems by (metis nth_take)
    also have "\<dots> = CHR '' ''"
    proof (cases "i < Suc k")
      case True
      then show ?thesis by (simp add: nth_append del: replicate_Suc)
    next
      case False
      then have "(spaces (Suc k) @ s @ r) ! i = s ! (i - Suc k)"
        using less.prems by (simp add: nth_append less_imp_diff_less del: replicate_Suc)
      also have "\<dots> = CHR '' ''" using False less by simp
      finally show ?thesis .
    qed
    finally show ?case .
  qed
  then show ?thesis by (auto simp: in_set_conv_nth)
qed

lemma find_sub_padded:
  assumes "\<exists>c\<in>set s. c \<noteq> CHR '' ''"
  shows "find_sub s (spaces k @ s @ r) = Some k"
proof (induction k)
  case 0
  from assms obtain c where "c \<in> set s" by blast
  then show ?case by (cases s) auto
next
  case (Suc k)
  have "take (length s) (spaces (Suc k) @ s @ r) \<noteq> s"
    using take_spaces_prefix assms by blast
  with Suc show ?case by simp
qed

lemma length_py_join:
  "length (py_join sep xs) = sum_list (map length xs) + length sep * (length xs - 1)"
  by (induction sep xs rule: py_join.induct) simp_all

lemma py_join_field:
  "i < length xs \<Longrightarrow> \<exists>r. py_join sep xs = concat (map (\<lambda>x. x @ sep) (take i xs)) @ xs ! i @ r"
proof (induction sep xs arbitrary: i rule: py_join.induct)
  case (3 sep x y xs)
  then show ?case by (cases i) auto
qed auto

lemma py_join_last: "xs \<noteq> [] \<Longrightarrow> \<exists>p. py_join sep xs = p @ last xs"
  by (induction sep xs rule: py_join.induct) auto

lemma positions_append:
  "positions c (xs @ ys) = positions c xs @ map (\<lambda>i. i + length xs) (positions c ys)"
proof -
  have "[0..<length (xs @ ys)] = [0..<length xs] @ map (\<lambda>i. i + length xs) [0..<length ys]"
    by (simp add: map_add_upt upt_add_eq_append[of 0, simplified] add.commute)
  then show ?thesis
    by (auto simp: positions_def filter_map o_def nth_append intro!: filter_cong)
qed

lemma positions_replicate: "c \<noteq> d \<Longrightarrow> positions c (replicate n d) = []"
  by (simp add: positions_def filter_empty_conv)

lemma positions_Nil [simp]: "positions c [] = []"
  by (simp add: positions_def)

lemma positions_singleton: "positions c [x] = (if x = c then [0] else [])"
  by (simp add: positions_def)

lemma positions_padded_single:
  "c \<noteq> d \<Longrightarrow> positions c (replicate a d @ c # replicate b d) = [a]"
  using positions_append [of c "replicate a d" "c # replicate b d"]
    positions_append [of c "[c]" "replicate b d"]
  by (simp add: positions_replicate positions_singleton)

lemma positions_Cons:
  "positions c (x # s) = (if x = c then [0] else []) @ map Suc (positions c s)"
  using positions_append [of c "[x]" s] by (simp add: positions_singleton)

lemma find_sub_single:
  "find_sub [c] s = (case positions c s of [] \<Rightarrow> None | p # _ \<Rightarrow> Some p)"
  by (induction s) (auto simp: positions_Cons split: list.splits)

lemma positions_rev:
  "positions c (rev s) = rev (map (\<lambda>i. length s - Suc i) (positions c s))"
proof (induction s)
  case Nil
  then show ?case by (simp add: positions_def)
next
  case (Cons x s)
  have "positions c (rev s @ [x]) = positions c (rev s) @ (if x = c then [length s] else [])"
    by (simp add: positions_append positions_singleton)
  then show ?case by (simp add: Cons positions_Cons rev_map o_def)
qed

lemma two_half_le: "2 * ((n::nat) div 2) \<le> n"
  by simp

lemma two_half_ge: "n \<le> 2 * ((n::nat) div 2) + 1"
  by (cases "even n") (simp_all add: odd_two_times_div_two_nat)

lemma two_center_left:
  "2 * center_left w n = (if odd (w - n) then w - n - 1 + (if odd w then 2 else 0) else w - n)"
  by (cases "even (w - n)") (simp_all add: center_left_def odd_two_times_div_two_nat)

lemma two_half_pred: "1 \<le> (w::nat) \<Longrightarrow> 2 * ((w - 1) div 2) = (if odd w then w - 1 else w - 2)"
  by (cases "even w") (simp_all add: odd_two_times_div_two_nat)


text \<open>The characters the built-ins can put into a string.\<close>

lemma set_py_repeat: "set (py_repeat n s) \<subseteq> set s"
  by (auto simp: py_repeat_def)

lemma set_py_center: "set (py_center w s) \<subseteq> set s \<union> {CHR '' ''}"
  using set_py_repeat [of _ "'' ''"] by (auto simp: py_center_def Let_def)

lemma set_py_join: "set (py_join sep xs) \<subseteq> set sep \<union> set (concat xs)"
  by (induction sep xs rule: py_join.induct) auto

lemma set_py_center_bound: "set s \<subseteq> A \<Longrightarrow> CHR '' '' \<in> A \<Longrightarrow> set (py_center w s) \<subseteq> A"
  using set_py_center [of w s] by blast

lemma set_py_join_bound:
  assumes "set sep \<subseteq> A" "\<And>x. x \<in> set xs \<Longrightarrow> set x \<subseteq> A"
  shows "set (py_join sep xs) \<subseteq> A"
proof -
  have "set (concat xs) \<subseteq> A" using assms(2) by auto
  with assms(1) show ?thesis using set_py_join [of sep xs] by blast
qed

lemma set_py_repeat_bound: "set s \<subseteq> A \<Longrightarrow> set (py_repeat n s) \<subseteq> A"
  using set_py_repeat [of n s] by blast

text \<open>\<open>str.index\<close> finds a substring that is there.\<close>

lemma find_sub_infix: "find_sub sub (p @ sub @ r) \<noteq> None"
proof (induction p)
  case Nil
  show ?case
  proof (cases "sub @ r")
    case (Cons a l)
    moreover have "take (length sub) (sub @ r) = sub" by simp
    ultimately show ?thesis by simp
  qed simp
qed simp

lemma py_index_infix: "\<exists>p r. s = p @ sub @ r \<Longrightarrow> \<exists>i. py_index s sub = Inr i"
  using find_sub_infix by (fastforce simp: py_index_def split: option.splits)

lemma py_center_infix: "\<exists>p r. py_center w s = p @ s @ r"
  by (auto simp: py_center_def Let_def) (metis append.right_neutral append_Nil)

lemma py_join_infix: "xs \<noteq> [] \<Longrightarrow> \<exists>p r. py_join sep xs = p @ hd xs @ r"
proof -
  assume "xs \<noteq> []"
  then obtain r where "py_join sep xs = xs ! 0 @ r" using py_join_field [of 0 xs sep] by auto
  with \<open>xs \<noteq> []\<close> show ?thesis by (metis append_Nil hd_conv_nth)
qed

lemma infix_trans: "\<exists>p r. s = p @ t @ r \<Longrightarrow> \<exists>p r. t = p @ u @ r \<Longrightarrow> \<exists>p r. s = p @ u @ r"
  by (metis append.assoc)

lemma infix_rev: "\<exists>p r. s = p @ t @ r \<Longrightarrow> \<exists>p r. rev s = p @ rev t @ r"
  by (metis append.assoc rev_append)

end
