(* ===== verification/TreeLines.thy ===== *)
theory TreeLines
  imports PyPrelude
begin

text \<open>
  The renderer of \<open>src/printTree.py\<close>.  \<open>treeLines(node, getInfo)\<close> is split the way
  its body is: the recursion over the children (lines 39--41) is \<open>treeLines\<close>, the
  layout of one node from its label and its children's blocks (lines 42--61) is
  \<open>treeLines_node\<close>.  Python's recursion limit is the fuel of \<open>treeLines\<close>: the
  number of nested calls still allowed, \<open>RecursionError\<close> when it runs out, which is
  also what a cyclic \<open>getInfo\<close> leads to.  \<open>treeLines_tree\<close> is the same recursion
  on the concrete tree type \<open>tree\<close> with no depth bound, and \<open>printTree\<close> is the
  text the driver writes.
\<close>

section \<open>Trees and the node adapter\<close>

datatype tree = Node string "tree list"

text \<open>The adapter of the usage comment, \<open>lambda n: (n.label, n.children)\<close>.\<close>

definition node_info :: "tree \<Rightarrow> string \<times> tree list" where
  "node_info t = (case t of Node label children \<Rightarrow> (label, children))"

lemma node_info_Node [simp]: "node_info (Node label children) = (label, children)"
  by (simp add: node_info_def)

fun depth :: "tree \<Rightarrow> nat" where
  "depth (Node l cs) = Suc (Max (insert 0 (set (map depth cs))))"

section \<open>The layout of one node: lines 42--61\<close>

text \<open>
  \<open>subNodes\<close> are the children's blocks.  \<open>childText[0]\<close> raises \<open>IndexError\<close> on
  an empty block before anything else is computed.  \<open>[x]*(maxHeight-len(subNode))\<close>
  is \<open>replicate\<close> with a \<open>nat\<close> count: \<open>maxHeight\<close> is the maximum, so the
  difference is never negative.
\<close>

definition treeLines_node :: "string \<Rightarrow> string list list \<Rightarrow> string list py_result" where
  "treeLines_node nodeId subNodes =
    (if [] \<in> set subNodes then Inl IndexError else
     let widths = map (\<lambda>childText. int (length (hd childText))) subNodes;
         totalWidth = max (sum_list widths + 2 * int (length widths) - 1) (int (length nodeId));
         nodeLine = py_center totalWidth nodeId
     in if subNodes = [] then Inr [nodeLine] else
     let linksLine = py_center totalWidth
           (py_join ''  '' (map (\<lambda>width. py_center width ''|'') widths))
     in py_bind (py_index linksLine ''|'') (\<lambda>li.
        py_bind (py_index (rev linksLine) ''|'') (\<lambda>ri.
        py_bind (py_index nodeLine nodeId) (\<lambda>ni.
        let leftIndent = li + 1;
            rightIndent = ri + 1;
            spanWidth = totalWidth - leftIndent - rightIndent - 1;
            leftSpan = ni - leftIndent + (int (length nodeId) - 1) div 2;
            rightSpan = spanWidth - leftSpan;
            spanLine = py_repeat leftIndent '' '' @ py_repeat leftSpan ''_'' @ ''|'' @
                       py_repeat rightSpan ''_'' @ py_repeat rightIndent '' '';
            maxHeight = Max (set (map length subNodes));
            padded = map (\<lambda>subNode. subNode @
                       replicate (maxHeight - length subNode)
                         (py_repeat (int (length (hd subNode))) '' '')) subNodes
        in Inr ([nodeLine] @ (if 1 < length subNodes then [spanLine] else []) @ [linksLine] @
                map (\<lambda>i. py_center totalWidth (py_join ''  '' (map (\<lambda>subNode. subNode ! i) padded)))
                  [0..<maxHeight])))))"

section \<open>The recursion: lines 39--41\<close>

fun treeLines :: "nat \<Rightarrow> ('n \<Rightarrow> string \<times> 'n list) \<Rightarrow> 'n \<Rightarrow> string list py_result" where
  "treeLines 0 getInfo node = Inl RecursionError"
| "treeLines (Suc limit) getInfo node =
     (case getInfo node of (nodeId, nodeChildren) \<Rightarrow>
        py_bind (py_seq (map (treeLines limit getInfo) nodeChildren)) (treeLines_node nodeId))"

fun treeLines_tree :: "tree \<Rightarrow> string list py_result" where
  "treeLines_tree (Node nodeId nodeChildren) =
     py_bind (py_seq (map treeLines_tree nodeChildren)) (treeLines_node nodeId)"

text \<open>\<open>printTree\<close> (lines 63--65): each line followed by the newline \<open>print\<close> adds;
  nothing is printed when \<open>treeLines\<close> raises, since it returns before the loop starts.\<close>

definition printTree :: "nat \<Rightarrow> ('n \<Rightarrow> string \<times> 'n list) \<Rightarrow> 'n \<Rightarrow> string py_result" where
  "printTree limit getInfo node =
     py_bind (treeLines limit getInfo node) (\<lambda>lines. Inr (concat (map (\<lambda>line. line @ ''\<newline>'') lines)))"

section \<open>Recursion, depth and the recursion limit\<close>

lemma depth_child: "c \<in> set cs \<Longrightarrow> depth c < depth (Node l cs)"
  by (simp add: le_imp_less_Suc)

lemma treeLines_leaf [simp]: "treeLines_node nodeId [] = Inr [nodeId]"
  by (simp add: treeLines_node_def py_center_def)

text \<open>C5: A leaf is rendered as its label alone, unpadded.\<close>

theorem treeLines_tree_leaf: "treeLines_tree (Node label []) = Inr [label]"
  by simp

lemma treeLines_node_info_eq:
  "depth t \<le> limit \<Longrightarrow> treeLines limit node_info t = treeLines_tree t"
proof (induction t arbitrary: limit)
  case (Node l cs)
  then obtain k where k: "limit = Suc k" by (cases limit) auto
  have "map (treeLines k node_info) cs = map treeLines_tree cs"
  proof (rule map_cong [OF refl])
    fix c assume c: "c \<in> set cs"
    with Node.prems k depth_child [OF c, of l] have "depth c \<le> k" by simp
    with c show "treeLines k node_info c = treeLines_tree c" by (rule Node.IH)
  qed
  with k show ?case by (simp del: map_eq_conv)
qed

text \<open>A node whose children include itself, the cycle the spec leaves unguarded,
  exhausts every recursion limit: the call ends in \<open>RecursionError\<close> and never in a
  block.\<close>

lemma treeLines_cycle:
  assumes "getInfo n = (label, [n])"
  shows "treeLines limit getInfo n = Inl RecursionError"
  using assms by (induction limit) simp_all

end
