(* ===== verification/TreeLayout.thy ===== *)
theory TreeLayout
  imports TreeLines
begin

text \<open>
  What the blocks \<open>treeLines\<close> draws look like.  A tree is well formed when every
  label has a character other than a space (the spec asks for non-empty printable labels;
  an all-blank label is where \<open>nodeLine.index(nodeId)\<close> stops finding the label where
  \<open>center\<close> put it).  \<open>block_width\<close> is the width the code computes, \<open>bar_cols\<close>
  the columns of the connectors in the links line.  The node lemma
  \<open>treeLines_node_layout\<close> computes the three \<open>index\<close> calls and the span counts of
  lines 50--55 in closed form; the theorems on whole trees follow by induction on the
  tree.  The last section bounds the characters a block can contain (\<open>tree_chars\<close>),
  for every tree, well formed or not; the one after it shows that no tree makes the
  renderer raise, that a child's block is embedded unchanged in its parent's, and,
  through that embedding, that every label is drawn intact.
\<close>

section \<open>Well-formed trees and block widths\<close>

definition wf_label :: "string \<Rightarrow> bool" where
  "wf_label l \<longleftrightarrow> (\<exists>c\<in>set l. c \<noteq> CHR '' '')"

fun wf_tree :: "tree \<Rightarrow> bool" where
  "wf_tree (Node l cs) \<longleftrightarrow> wf_label l \<and> list_all wf_tree cs"

text \<open>Lines 43--44 in \<open>nat\<close>: \<open>sum(widths) + 2*len(widths) - 1\<close> is the width of the
  joined links plus one; for a leaf the \<open>max\<close> leaves the label's length.\<close>

definition links_width :: "nat list \<Rightarrow> nat" where
  "links_width ws = sum_list ws + 2 * (length ws - 1)"

fun block_width :: "tree \<Rightarrow> nat" where
  "block_width (Node l cs) =
     (if cs = [] then length l else max (links_width (map block_width cs) + 1) (length l))"

definition rect :: "nat \<Rightarrow> string list \<Rightarrow> bool" where
  "rect w b \<longleftrightarrow> b \<noteq> [] \<and> (\<forall>line\<in>set b. length line = w)"

text \<open>Lines 58--60 pad every child block to the tallest one, so a block has the label
  line, the span line when there are several children, the links line, and one row per
  line of the tallest child block.\<close>

fun block_height :: "tree \<Rightarrow> nat" where
  "block_height (Node l cs) =
     (if cs = [] then 1 else (if 1 < length cs then 3 else 2) + Max (set (map block_height cs)))"

fun label_of :: "tree \<Rightarrow> string" where
  "label_of (Node l cs) = l"

text \<open>What the recursion keeps true of the block of a subtree: it is a rectangle of the
  computed width, and its first line is the label centred in that width.\<close>

definition block_ok :: "tree \<Rightarrow> string list \<Rightarrow> bool" where
  "block_ok t b \<longleftrightarrow>
     rect (block_width t) b \<and> hd b = py_center (int (block_width t)) (label_of t) \<and> 1 \<le> block_width t"

text \<open>Columns of the connectors \<open>"|".center(w)\<close> of fields of widths \<open>ws\<close> joined by two
  spaces, starting at column \<open>off\<close>.\<close>

fun bar_cols :: "nat \<Rightarrow> nat list \<Rightarrow> nat list" where
  "bar_cols off [] = []"
| "bar_cols off (w # ws) = (off + (w - 1) div 2) # bar_cols (off + w + 2) ws"

text \<open>The shapes of the lines drawn below a node's label, named for the statements
  that follow: the links line of line 48--49, the span line line 55 should draw (spaces
  up to and including the first connector's column, underscores to the label's centre
  column \<open>c\<close>, a bar there, underscores to the last connector \<open>lb\<close>, spaces), and the
  merged child rows of lines 58--60.\<close>

definition links_line :: "nat \<Rightarrow> nat list \<Rightarrow> string" where
  "links_line W ws = py_center (int W) (py_join ''  '' (map (\<lambda>w. py_center (int w) ''|'') ws))"

definition span_shape :: "nat \<Rightarrow> nat \<Rightarrow> nat \<Rightarrow> nat \<Rightarrow> string" where
  "span_shape W f c lb =
     spaces (Suc f) @ replicate (c - Suc f) CHR ''_'' @ ''|'' @ replicate (lb - Suc c) CHR ''_'' @ spaces (W - lb)"

definition merged_rows :: "nat \<Rightarrow> string list list \<Rightarrow> string list" where
  "merged_rows W subs =
     (let M = Max (set (map length subs)) in
      map (\<lambda>i. py_center (int W) (py_join ''  ''
             (map (\<lambda>b. (b @ replicate (M - length b) (py_repeat (int (length (hd b))) '' '')) ! i) subs)))
        [0..<M])"

section \<open>The links line\<close>

lemma bar_cols_shift: "bar_cols (a + b) ws = map (\<lambda>i. i + a) (bar_cols b ws)"
proof (induction ws arbitrary: b)
  case (Cons w ws)
  have "a + b + w + 2 = a + (b + w + 2)" by simp
  with Cons.IH [of "b + w + 2"] show ?case by (simp add: add.assoc)
qed simp

lemma length_bar_cols [simp]: "length (bar_cols off ws) = length ws"
  by (induction ws arbitrary: off) simp_all

lemma bar_field: "py_center (int w) ''|'' = spaces ((w - 1) div 2) @ ''|'' @ spaces (w - 1 - (w - 1) div 2)"
  by (simp add: py_center_nat)

lemma links_join_length:
  "\<forall>w\<in>set ws. 1 \<le> w \<Longrightarrow>
   length (py_join ''  '' (map (\<lambda>w. py_center (int w) ''|'') ws)) = links_width ws"
proof -
  assume "\<forall>w\<in>set ws. 1 \<le> w"
  then have "map (\<lambda>w. length (py_center (int w) ''|'')) ws = ws"
    by (induction ws) auto
  then show ?thesis by (simp add: length_py_join links_width_def o_def)
qed

lemma bar_field_positions: "positions CHR ''|'' (py_center (int w) ''|'') = [(w - 1) div 2]"
  using positions_padded_single [of "CHR ''|''" "CHR '' ''" "(w - 1) div 2" "w - 1 - (w - 1) div 2"]
  by (simp add: bar_field)

lemma links_join_positions:
  "\<forall>w\<in>set ws. 1 \<le> w \<Longrightarrow>
   positions CHR ''|'' (py_join ''  '' (map (\<lambda>w. py_center (int w) ''|'') ws)) = bar_cols 0 ws"
proof (induction ws rule: induct_list012)
  case (3 w w' ws)
  let ?F = "\<lambda>w. py_center (int w) ''|''"
  let ?J = "py_join ''  '' (map ?F (w' # ws))"
  have IH: "positions CHR ''|'' ?J = bar_cols 0 (w' # ws)" using 3 by simp
  have len: "length (?F w) = w" using "3.prems" by simp
  have sep: "positions CHR ''|'' (''  '' @ ?J) = map (\<lambda>i. i + 2) (positions CHR ''|'' ?J)"
    using positions_append [of "CHR ''|''" "''  ''" ?J] by (simp add: positions_def)
  have "positions CHR ''|'' (py_join ''  '' (map ?F (w # w' # ws))) =
        positions CHR ''|'' (?F w @ ''  '' @ ?J)"
    by simp
  also have "\<dots> = (w - 1) div 2 # map (\<lambda>i. i + (w + 2)) (bar_cols 0 (w' # ws))"
    using positions_append [of "CHR ''|''" "?F w" "''  '' @ ?J"]
    by (simp only: sep IH len bar_field_positions map_map o_def) (simp add: add.assoc)
  also have "\<dots> = bar_cols 0 (w # w' # ws)"
    using bar_cols_shift [of "w + 2" 0 "w' # ws"] by simp
  finally show ?case .
qed (simp_all add: bar_field_positions)

lemma hd_bar_cols: "ws \<noteq> [] \<Longrightarrow> hd (bar_cols off ws) = off + (hd ws - 1) div 2"
  by (cases ws) simp_all

lemma last_bar_cols:
  "ws \<noteq> [] \<Longrightarrow> last (bar_cols off ws) = off + links_width ws - last ws + (last ws - 1) div 2"
proof (induction ws arbitrary: off rule: induct_list012)
  case (3 w w' ws)
  have "last (bar_cols (off + w + 2) (w' # ws)) =
        off + w + 2 + links_width (w' # ws) - last (w' # ws) + (last (w' # ws) - 1) div 2"
    using "3.IH"(2) by blast
  moreover have "last (w' # ws) \<le> links_width (w' # ws)"
    by (cases ws rule: rev_cases) (simp_all add: links_width_def)
  ultimately show ?case by (simp add: links_width_def add.assoc)
qed (simp_all add: links_width_def)

lemma links_line_shape:
  assumes "\<forall>w\<in>set ws. 1 \<le> w" "links_width ws < W"
  shows "py_center (int W) (py_join ''  '' (map (\<lambda>w. py_center (int w) ''|'') ws)) =
         spaces (center_left W (links_width ws)) @ py_join ''  '' (map (\<lambda>w. py_center (int w) ''|'') ws) @
         spaces (W - links_width ws - center_left W (links_width ws))"
  using assms py_center_nat [of W "py_join ''  '' (map (\<lambda>w. py_center (int w) ''|'') ws)"]
  by (simp add: links_join_length)

lemma links_line_positions:
  assumes "\<forall>w\<in>set ws. 1 \<le> w" "links_width ws < W"
  shows "positions CHR ''|'' (py_center (int W) (py_join ''  '' (map (\<lambda>w. py_center (int w) ''|'') ws))) =
         bar_cols (center_left W (links_width ws)) ws"
  using assms bar_cols_shift [of "center_left W (links_width ws)" 0 ws]
  by (simp add: links_line_shape positions_append positions_replicate links_join_positions)

lemma length_links_line:
  assumes "\<forall>w\<in>set ws. 1 \<le> w" "links_width ws < W"
  shows "length (py_center (int W) (py_join ''  '' (map (\<lambda>w. py_center (int w) ''|'') ws))) = W"
  using assms by (simp add: links_join_length)

lemma py_index_single:
  "positions c s = p # ps \<Longrightarrow> py_index s [c] = Inr (int p)"
  by (simp add: py_index_def find_sub_single)

lemma py_index_rev_single:
  assumes "positions c s \<noteq> []"
  shows "py_index (rev s) [c] = Inr (int (length s - Suc (last (positions c s))))"
proof -
  obtain ps p where ps: "positions c s = ps @ [p]" using assms by (cases "positions c s" rule: rev_cases) auto
  then have "positions c (rev s) = (length s - Suc (last (positions c s))) #
               rev (map (\<lambda>i. length s - Suc i) ps)"
    by (simp add: positions_rev)
  then show ?thesis by (rule py_index_single)
qed

section \<open>One node in closed form\<close>

lemma span_left_bound:
  assumes "1 \<le> a" "a + 3 \<le> S" "S < W"
  shows "center_left W S + (a - 1) div 2 + 1 \<le> (W - 1) div 2"
proof -
  have "2 * center_left W S + 2 * ((a - 1) div 2) + 2 \<le> 2 * ((W - 1) div 2)"
    using assms two_half_le [of "a - 1"] two_center_left [of W S] two_half_pred [of W]
    by (cases "odd (W - S)"; cases "odd W") simp_all
  then show ?thesis by simp
qed

lemma span_right_bound:
  assumes "1 \<le> z" "z + 3 \<le> S" "S < W"
  shows "(W - 1) div 2 + 1 \<le> center_left W S + (S - z) + (z - 1) div 2"
proof -
  define x where "x = (W - 1) div 2"
  define y where "y = center_left W S"
  define u where "u = (z - 1) div 2"
  have u: "z \<le> 2 * u + 2" using two_half_ge [of "z - 1"] by (simp add: u_def)
  have y: "W \<le> 2 * y + S + 1" using two_center_left [of W S] assms(3)
    by (cases "odd (W - S)"; cases "odd W") (simp_all add: y_def)
  have "x + 1 \<le> y + (S - z) + u"
  proof (cases "odd W")
    case True
    then have x: "2 * x + 1 = W" using two_half_pred [of W] assms(3) by (simp add: x_def)
    have "W \<le> 2 * y + S"
      using two_center_left [of W S] assms(3) True
      by (cases "odd (W - S)") (simp_all add: y_def)
    with x u assms show ?thesis by linarith
  next
    case False
    have "2 \<le> W" using assms by linarith
    with False have x: "2 * x + 2 = W" using two_half_pred [of W] by (simp add: x_def)
    with y u assms show ?thesis by linarith
  qed
  then show ?thesis by (simp add: x_def y_def u_def)
qed

lemma span_bounds:
  assumes ws1: "\<forall>w\<in>set ws. 1 \<le> w" and two: "2 \<le> length ws" and SW: "links_width ws < W"
  shows "hd (bar_cols (center_left W (links_width ws)) ws) < (W - 1) div 2"
    and "(W - 1) div 2 < last (bar_cols (center_left W (links_width ws)) ws)"
    and "last (bar_cols (center_left W (links_width ws)) ws) < W"
proof -
  let ?bars = "bar_cols (center_left W (links_width ws)) ws"
  obtain a rest where ar: "ws = a # rest" "rest \<noteq> []" using two by (cases ws) (auto simp: Suc_le_eq)
  then obtain mid z where "rest = mid @ [z]" by (cases rest rule: rev_cases) auto
  with ar have split: "ws = a # mid @ [z]" by simp
  then have wsne: "ws \<noteq> []" by simp
  have az: "1 \<le> a" "1 \<le> z" using ws1 split by auto
  have S: "links_width ws = a + sum_list mid + z + 2 * (length mid + 1)"
    using split by (simp add: links_width_def)
  have f: "hd ?bars = center_left W (links_width ws) + (a - 1) div 2"
    using hd_bar_cols [OF wsne] split by simp
  have lb: "last ?bars = center_left W (links_width ws) + (links_width ws - z) + (z - 1) div 2"
    using last_bar_cols [OF wsne] split S by simp
  show "hd ?bars < (W - 1) div 2"
    using span_left_bound [of a "links_width ws" W] az S SW f by simp
  show "(W - 1) div 2 < last ?bars"
    using span_right_bound [of z "links_width ws" W] az S SW lb by simp
  show "last ?bars < W"
    using lb center_left_le [of W "links_width ws"] az S SW by simp
qed

lemma span_line_eq:
  assumes "f < c" "c < lb" "lb < W" "ni + (L - 1) div 2 = c" "1 \<le> L"
  shows "py_repeat (int f + 1) '' '' @ py_repeat (int ni - (int f + 1) + (int L - 1) div 2) ''_'' @ ''|'' @
         py_repeat (int W - (int f + 1) - (int (W - Suc lb) + 1) - 1 -
                    (int ni - (int f + 1) + (int L - 1) div 2)) ''_'' @
         py_repeat (int (W - Suc lb) + 1) '' '' = span_shape W f c lb"
proof -
  have h: "(int L - 1) div 2 = int ((L - 1) div 2)" using assms(5) by (simp add: zdiv_int of_nat_diff)
  have e0: "int (W - Suc lb) + 1 = int (W - lb)" "int f + 1 = int (Suc f)" using assms(3) by simp_all
  have e1: "int ni - int (Suc f) + (int L - 1) div 2 = int (c - Suc f)"
    using assms(1,4) h by simp
  have e2: "int W - int (Suc f) - int (W - lb) - 1 - int (c - Suc f) = int (lb - Suc c)"
    using assms(1-3) by simp
  show ?thesis
    by (simp only: e0) (simp only: e1 e2 py_repeat_single nat_int span_shape_def)
qed

lemma treeLines_node_layout:
  assumes lab: "wf_label l" and ne: "subs \<noteq> []"
    and blocks: "\<forall>b\<in>set subs. rect (length (hd b)) b \<and> 1 \<le> length (hd b)"
    and ws_def: "ws = map (\<lambda>b. length (hd b)) subs"
    and W_def: "W = max (links_width ws + 1) (length l)"
  shows "treeLines_node l subs =
           Inr ([py_center (int W) l] @
                (if 1 < length subs
                 then [span_shape W (hd (bar_cols (center_left W (links_width ws)) ws)) ((W - 1) div 2)
                         (last (bar_cols (center_left W (links_width ws)) ws))]
                 else []) @
                [links_line W ws] @ merged_rows W subs)"
proof -
  let ?bars = "bar_cols (center_left W (links_width ws)) ws"
  let ?LL = "links_line W ws"
  have nonempty: "[] \<notin> set subs" using blocks by (auto simp: rect_def)
  have ws1: "\<forall>w\<in>set ws. 1 \<le> w" using blocks by (auto simp: ws_def)
  have wsne: "ws \<noteq> []" using ne by (simp add: ws_def)
  have widths: "map (\<lambda>childText. int (length (hd childText))) subs = map int ws"
    by (simp add: ws_def)
  have k: "1 \<le> length ws" using ne by (cases subs) (simp_all add: ws_def)
  have "sum_list (map int ws) = int (sum_list ws)" by (rule sum_list_of_nat)
  with k have tw: "max (sum_list (map int ws) + 2 * int (length (map int ws)) - 1) (int (length l)) = int W"
    by (simp add: W_def links_width_def of_nat_diff)
  have SW: "links_width ws < W" and LW: "length l \<le> W" by (simp_all add: W_def)
  have L1: "1 \<le> length l" using lab by (cases l) (auto simp: wf_label_def)
  have bars: "positions CHR ''|'' ?LL = ?bars"
    using links_line_positions [OF ws1 SW] by (simp add: links_line_def)
  have barsne: "?bars \<noteq> []" using wsne by (cases ws) simp_all
  have lenLL: "length ?LL = W" using length_links_line [OF ws1 SW] by (simp add: links_line_def)
  have i1: "py_index ?LL ''|'' = Inr (int (hd ?bars))"
    using bars barsne py_index_single [of "CHR ''|''" ?LL "hd ?bars" "tl ?bars"] by simp
  have i2: "py_index (rev ?LL) ''|'' = Inr (int (W - Suc (last ?bars)))"
    using py_index_rev_single [of "CHR ''|''" ?LL] bars barsne lenLL by simp
  have i3: "py_index (py_center (int W) l) l = Inr (int (center_left W (length l)))"
    using find_sub_padded [of l] lab by (simp add: py_center_nat py_index_def wf_label_def)
  have span: "1 < length subs \<Longrightarrow>
    py_repeat (int (hd ?bars) + 1) '' '' @
    py_repeat (int (center_left W (length l)) - (int (hd ?bars) + 1) + (int (length l) - 1) div 2) ''_'' @ ''|'' @
    py_repeat (int W - (int (hd ?bars) + 1) - (int (W - Suc (last ?bars)) + 1) - 1 -
               (int (center_left W (length l)) - (int (hd ?bars) + 1) + (int (length l) - 1) div 2)) ''_'' @
    py_repeat (int (W - Suc (last ?bars)) + 1) '' '' =
    span_shape W (hd ?bars) ((W - 1) div 2) (last ?bars)"
  proof -
    assume two: "1 < length subs"
    then have "2 \<le> length ws" by (simp add: ws_def)
    from span_bounds [OF ws1 this SW] L1 center_left_label [OF L1 LW] show ?thesis
      by (intro span_line_eq) simp_all
  qed
  show ?thesis
  proof (cases "1 < length subs")
    case True
    show ?thesis
      unfolding treeLines_node_def Let_def
      by (simp only: nonempty if_False ne widths tw map_map o_def links_line_def [symmetric]
          i1 i2 i3 py_bind_simps span [OF True] True if_True merged_rows_def Let_def)
  next
    case False
    show ?thesis
      unfolding treeLines_node_def Let_def
      by (simp only: nonempty if_False ne widths tw map_map o_def links_line_def [symmetric]
          i1 i2 i3 py_bind_simps False merged_rows_def Let_def)
  qed
qed

lemma length_span_shape:
  "f < c \<Longrightarrow> c < lb \<Longrightarrow> lb < W \<Longrightarrow> length (span_shape W f c lb) = W"
  by (simp add: span_shape_def)

lemma padded_row_length:
  assumes b: "rect (length (hd b)) b" and i: "i < M"
  shows "length ((b @ replicate (M - length b) (py_repeat (int (length (hd b))) '' '')) ! i) = length (hd b)"
proof (cases "i < length b")
  case True
  then have "b ! i \<in> set b" by simp
  with b have "length (b ! i) = length (hd b)" unfolding rect_def by blast
  with True show ?thesis by (simp add: nth_append)
next
  case False
  with i have "i - length b < M - length b" by simp
  with False show ?thesis by (simp add: nth_append py_repeat_single)
qed

lemma length_merged_rows [simp]: "length (merged_rows W subs) = Max (set (map length subs))"
  by (simp add: merged_rows_def)

lemma merged_rows_width:
  assumes blocks: "\<forall>b\<in>set subs. rect (length (hd b)) b"
    and SW: "links_width (map (\<lambda>b. length (hd b)) subs) \<le> W"
  shows "\<forall>r\<in>set (merged_rows W subs). length r = W"
proof
  fix r assume "r \<in> set (merged_rows W subs)"
  then obtain i where i: "i < Max (set (map length subs))"
    and r: "r = py_center (int W) (py_join ''  '' (map (\<lambda>b. (b @ replicate (Max (set (map length subs)) - length b)
                   (py_repeat (int (length (hd b))) '' '')) ! i) subs))"
    by (auto simp: merged_rows_def)
  have "map (\<lambda>b. length ((b @ replicate (Max (set (map length subs)) - length b)
                   (py_repeat (int (length (hd b))) '' '')) ! i)) subs = map (\<lambda>b. length (hd b)) subs"
    using blocks i by (auto intro!: padded_row_length)
  then have "length (py_join ''  '' (map (\<lambda>b. (b @ replicate (Max (set (map length subs)) - length b)
                   (py_repeat (int (length (hd b))) '' '')) ! i) subs)) = links_width (map (\<lambda>b. length (hd b)) subs)"
    by (simp add: length_py_join links_width_def o_def del: map_eq_conv)
  with SW show "length r = W" by (simp add: r)
qed

section \<open>Whole trees\<close>

lemma rect_hd_length: "rect w b \<Longrightarrow> length (hd b) = w"
  unfolding rect_def by (cases b) auto

lemma ball_line_parts:
  "(\<forall>x\<in>set ([a] @ xs @ [b] @ ys). P x) \<longleftrightarrow> P a \<and> (\<forall>x\<in>set xs. P x) \<and> P b \<and> (\<forall>x\<in>set ys. P x)"
  by auto

lemma node_block_ok:
  assumes lab: "wf_label l" and ne: "cs \<noteq> []"
    and kids: "\<forall>c\<in>set cs. block_ok c (B c)"
  shows "\<exists>b. treeLines_node l (map B cs) = Inr b \<and> block_ok (Node l cs) b"
proof -
  let ?subs = "map B cs"
  let ?ws = "map (\<lambda>b. length (hd b)) ?subs"
  let ?W = "block_width (Node l cs)"
  have hdlen: "length (hd (B c)) = block_width c" if "c \<in> set cs" for c
    using kids that rect_hd_length unfolding block_ok_def by blast
  have ws: "?ws = map block_width cs" by (simp add: hdlen)
  have W: "?W = max (links_width ?ws + 1) (length l)" unfolding ws using ne by simp
  have blocks: "\<forall>b\<in>set ?subs. rect (length (hd b)) b \<and> 1 \<le> length (hd b)"
    using kids hdlen unfolding block_ok_def by auto
  have ws1: "\<forall>w\<in>set ?ws. 1 \<le> w" using blocks by auto
  have SW: "links_width ?ws < ?W" and LW: "length l \<le> ?W" using W by simp_all
  have L1: "1 \<le> length l" using lab by (cases l) (auto simp: wf_label_def)
  have subsne: "?subs \<noteq> []" using ne by simp
  let ?bars = "bar_cols (center_left ?W (links_width ?ws)) ?ws"
  let ?sp = "if 1 < length ?subs then [span_shape ?W (hd ?bars) ((?W - 1) div 2) (last ?bars)] else []"
  have sp: "\<forall>x\<in>set ?sp. length x = ?W"
  proof (cases "1 < length ?subs")
    case True
    then have "2 \<le> length ?ws" by simp
    from span_bounds [OF ws1 this SW] show ?thesis by (simp add: length_span_shape)
  qed simp
  have rows: "\<forall>r\<in>set (merged_rows ?W ?subs). length r = ?W"
    using blocks SW by (intro merged_rows_width) auto
  have LL: "length (links_line ?W ?ws) = ?W"
    using length_links_line [OF ws1 SW] by (simp add: links_line_def)
  have "treeLines_node l ?subs =
          Inr ([py_center (int ?W) l] @ ?sp @ [links_line ?W ?ws] @ merged_rows ?W ?subs)"
    using lab subsne blocks W by (intro treeLines_node_layout) simp_all
  moreover have "block_ok (Node l cs) ([py_center (int ?W) l] @ ?sp @ [links_line ?W ?ws] @ merged_rows ?W ?subs)"
  proof -
    have nl: "length (py_center (int ?W) l) = ?W" using LW by simp
    have all: "\<forall>line\<in>set ([py_center (int ?W) l] @ ?sp @ [links_line ?W ?ws] @ merged_rows ?W ?subs).
            length line = ?W"
      using nl sp LL rows by (intro ball_line_parts [THEN iffD2] conjI)
    have ne: "[py_center (int ?W) l] @ ?sp @ [links_line ?W ?ws] @ merged_rows ?W ?subs \<noteq> []" by simp
    have w1: "1 \<le> ?W" using L1 LW by linarith
    have hd: "hd ([py_center (int ?W) l] @ ?sp @ [links_line ?W ?ws] @ merged_rows ?W ?subs) =
              py_center (int ?W) (label_of (Node l cs))" by simp
    show ?thesis unfolding block_ok_def rect_def by (intro conjI ne all hd w1)
  qed
  ultimately show ?thesis by blast
qed

lemma treeLines_tree_block:
  "wf_tree t \<Longrightarrow> treeLines_tree t = Inr (projr (treeLines_tree t)) \<and> block_ok t (projr (treeLines_tree t))"
proof (induction t)
  case (Node l cs)
  let ?B = "\<lambda>c. projr (treeLines_tree c)"
  have lab: "wf_label l" and wfc: "\<forall>c\<in>set cs. wf_tree c" using Node.prems by (simp_all add: list_all_iff)
  have IH: "\<forall>c\<in>set cs. treeLines_tree c = Inr (?B c) \<and> block_ok c (?B c)"
    using Node.IH wfc by blast
  then have seq: "py_seq (map treeLines_tree cs) = Inr (map ?B cs)" by simp
  have eq: "treeLines_tree (Node l cs) = treeLines_node l (map ?B cs)"
    by (simp only: treeLines_tree.simps seq py_bind_simps)
  show ?case
  proof (cases "cs = []")
    case True
    with lab show ?thesis
      by (cases l) (auto simp: block_ok_def rect_def wf_label_def py_center_def)
  next
    case False
    with lab IH obtain b where "treeLines_node l (map ?B cs) = Inr b" "block_ok (Node l cs) b"
      using node_block_ok [of l cs ?B] by blast
    with eq show ?thesis by simp
  qed
qed

text \<open>C1: For a tree whose labels all have a visible character, \<open>treeLines\<close> never
  raises, and the block it returns is non-empty with every line exactly
  \<open>block_width t\<close> characters wide: \<open>max(sum(widths) + 2*len(widths) - 1, len(label))\<close>
  for an inner node, the label's length for a leaf.\<close>

theorem treeLines_tree_rect:
  assumes "wf_tree t"
  shows "\<exists>b. treeLines_tree t = Inr b \<and> b \<noteq> [] \<and> (\<forall>line\<in>set b. length line = block_width t)"
  using treeLines_tree_block [OF assms] unfolding block_ok_def rect_def by blast

theorem treeLines_tree_rect_witness:
  "wf_tree (Node ''root'' [Node ''a'' [], Node ''bc'' [Node ''x'' []]]) \<and>
   (\<exists>b. treeLines_tree (Node ''root'' [Node ''a'' [], Node ''bc'' [Node ''x'' []]]) = Inr b \<and> b \<noteq> [] \<and>
        (\<forall>line\<in>set b. length line = block_width (Node ''root'' [Node ''a'' [], Node ''bc'' [Node ''x'' []]])))"
proof -
  have wf: "wf_tree (Node ''root'' [Node ''a'' [], Node ''bc'' [Node ''x'' []]])"
    by (simp add: wf_label_def)
  with treeLines_tree_rect [OF wf] show ?thesis by blast
qed

section \<open>Connectors, span and height\<close>

lemma nth_bar_cols:
  "i < length ws \<Longrightarrow> bar_cols off ws ! i = off + sum_list (map (\<lambda>w. w + 2) (take i ws)) + (ws ! i - 1) div 2"
proof (induction ws arbitrary: off i)
  case (Cons w ws)
  then show ?case by (cases i) (simp_all add: add.assoc)
qed simp

lemma length_concat_fields:
  "length (concat (map (\<lambda>x. x @ ''  '') xs)) = sum_list (map (\<lambda>x. length x + 2) xs)"
  by (induction xs) simp_all

text \<open>The closed form of one inner node on a well-formed tree.\<close>

lemma treeLines_tree_node:
  assumes wf: "wf_tree (Node l cs)" and ne: "cs \<noteq> []"
  shows "treeLines_tree (Node l cs) =
    Inr ([py_center (int (block_width (Node l cs))) l] @
         (if 1 < length cs
          then [span_shape (block_width (Node l cs))
                  (hd (bar_cols (center_left (block_width (Node l cs)) (links_width (map block_width cs))) (map block_width cs)))
                  ((block_width (Node l cs) - 1) div 2)
                  (last (bar_cols (center_left (block_width (Node l cs)) (links_width (map block_width cs))) (map block_width cs)))]
          else []) @
         [links_line (block_width (Node l cs)) (map block_width cs)] @
         merged_rows (block_width (Node l cs)) (map (\<lambda>c. projr (treeLines_tree c)) cs))"
proof -
  let ?B = "\<lambda>c. projr (treeLines_tree c)"
  have lab: "wf_label l" and wfc: "\<forall>c\<in>set cs. wf_tree c" using wf by (simp_all add: list_all_iff)
  have kids: "\<forall>c\<in>set cs. treeLines_tree c = Inr (?B c) \<and> block_ok c (?B c)"
    using wfc treeLines_tree_block by blast
  then have seq: "py_seq (map treeLines_tree cs) = Inr (map ?B cs)" by simp
  have hdlen: "length (hd (?B c)) = block_width c" if "c \<in> set cs" for c
    using kids that rect_hd_length unfolding block_ok_def by blast
  have ws: "map (\<lambda>b. length (hd b)) (map ?B cs) = map block_width cs" by (simp add: hdlen)
  have blocks: "\<forall>b\<in>set (map ?B cs). rect (length (hd b)) b \<and> 1 \<le> length (hd b)"
    using kids hdlen unfolding block_ok_def by auto
  have W: "block_width (Node l cs) = max (links_width (map block_width cs) + 1) (length l)"
    using ne by simp
  have "treeLines_node l (map ?B cs) = Inr ([py_center (int (block_width (Node l cs))) l] @
         (if 1 < length (map ?B cs)
          then [span_shape (block_width (Node l cs))
                  (hd (bar_cols (center_left (block_width (Node l cs)) (links_width (map block_width cs))) (map block_width cs)))
                  ((block_width (Node l cs) - 1) div 2)
                  (last (bar_cols (center_left (block_width (Node l cs)) (links_width (map block_width cs))) (map block_width cs)))]
          else []) @
         [links_line (block_width (Node l cs)) (map block_width cs)] @
         merged_rows (block_width (Node l cs)) (map ?B cs))"
    using lab ne blocks ws [symmetric] W by (intro treeLines_node_layout) simp_all
  then show ?thesis by (simp only: treeLines_tree.simps seq py_bind_simps length_map)
qed

lemma label_le_block_width: "length (label_of t) \<le> block_width t"
  by (cases t) simp

lemma wf_label_length: "wf_label l \<Longrightarrow> 1 \<le> length l"
  by (cases l) (auto simp: wf_label_def)

lemma merged_rows_first:
  assumes "subs \<noteq> []" "[] \<notin> set subs"
  shows "merged_rows W subs \<noteq> []"
    and "hd (merged_rows W subs) = py_center (int W) (py_join ''  '' (map hd subs))"
proof -
  obtain b where b: "b \<in> set subs" using assms(1) by (cases subs) auto
  with assms(2) have "1 \<le> length b" by (cases b) auto
  also have "length b \<le> Max (set (map length subs))" using b by (simp add: Max_ge_iff)
  finally have M: "0 < Max (set (map length subs))" by simp
  then show "merged_rows W subs \<noteq> []" by (simp add: merged_rows_def)
  have "(x @ ys) ! 0 = hd x" if "x \<in> set subs" for x :: "string list" and ys
    using assms(2) that by (cases x) auto
  then have "map (\<lambda>x. (x @ replicate (Max (set (map length subs)) - length x)
                        (py_repeat (int (length (hd x))) '' '')) ! 0) subs = map hd subs"
    by simp
  with M show "hd (merged_rows W subs) = py_center (int W) (py_join ''  '' (map hd subs))"
    by (simp add: merged_rows_def upt_conv_Cons del: map_eq_conv)
qed

text \<open>In a row \<open>"  ".join(fs)\<close> centred with left margin \<open>lp\<close>, the \<open>i\<close>-th field
  starts \<open>lp\<close> plus the widths of the earlier fields and their separators in.\<close>

lemma field_at_col:
  assumes i: "i < length fs" and ws: "map length fs = ws"
  shows "take (ws ! i) (drop (lp + sum_list (map (\<lambda>w. w + 2) (take i ws)))
           (spaces lp @ py_join ''  '' fs @ sfx)) = fs ! i"
proof -
  let ?pre = "spaces lp @ concat (map (\<lambda>x. x @ ''  '') (take i fs))"
  obtain r where r: "py_join ''  '' fs = concat (map (\<lambda>x. x @ ''  '') (take i fs)) @ fs ! i @ r"
    using py_join_field [OF i] by blast
  have "length (concat (map (\<lambda>x. x @ ''  '') (take i fs))) = sum_list (map (\<lambda>w. w + 2) (take i ws))"
    unfolding length_concat_fields ws [symmetric] by (simp add: take_map o_def)
  then have pre: "length ?pre = lp + sum_list (map (\<lambda>w. w + 2) (take i ws))" by simp
  have len: "length (fs ! i) = ws ! i" using i ws by auto
  have "spaces lp @ py_join ''  '' fs @ sfx = ?pre @ fs ! i @ (r @ sfx)" by (simp add: r)
  then show ?thesis unfolding pre [symmetric] using len by simp
qed

lemma label_under_bar:
  assumes i: "i < length fs" and ws: "map length fs = ws"
    and field: "fs ! i = spaces (center_left (ws ! i) (length lab)) @ lab @ rest"
    and L1: "1 \<le> length lab" and Lw: "length lab \<le> ws ! i"
  shows "take (length lab) (drop (bar_cols lp ws ! i - (length lab - 1) div 2)
           (spaces lp @ py_join ''  '' fs @ sfx)) = lab"
proof -
  let ?S = "lp + sum_list (map (\<lambda>w. w + 2) (take i ws))"
  let ?cl = "center_left (ws ! i) (length lab)"
  define Y where "Y = drop ?S (spaces lp @ py_join ''  '' fs @ sfx)"
  have F: "take (ws ! i) Y = fs ! i" unfolding Y_def by (rule field_at_col [OF i ws])
  have "bar_cols lp ws ! i = ?S + (ws ! i - 1) div 2"
    using nth_bar_cols [of i ws lp] i ws by auto
  then have col: "bar_cols lp ws ! i - (length lab - 1) div 2 = ?S + ?cl"
    using center_left_label [OF L1 Lw] by linarith
  have fit: "length lab + ?cl \<le> ws ! i" using center_left_le [of "ws ! i" "length lab"] Lw by linarith
  have "take (length lab) (drop ?cl Y) = drop ?cl (take (length lab + ?cl) Y)"
    by (simp add: take_drop)
  also have "take (length lab + ?cl) Y = take (length lab + ?cl) (take (ws ! i) Y)"
    using fit by (simp add: min_absorb1)
  also have "\<dots> = spaces ?cl @ lab" unfolding F field by simp
  finally have "take (length lab) (drop ?cl Y) = lab" by simp
  then have "take (length lab) (drop (?cl + ?S) (spaces lp @ py_join ''  '' fs @ sfx)) = lab"
    unfolding Y_def drop_drop .
  then show ?thesis unfolding col by (simp only: add.commute)
qed

text \<open>A merged row below the links line: the children's rows at that height (padded
  with spaces for the shorter children), joined and centred like the links line.\<close>

lemma merged_row_fields:
  assumes blocks: "\<forall>b\<in>set subs. rect (length (hd b)) b"
    and SW: "links_width (map (\<lambda>b. length (hd b)) subs) \<le> W"
    and r: "r < Max (set (map length subs))"
  shows "\<exists>fs sfx. merged_rows W subs ! r =
             spaces (center_left W (links_width (map (\<lambda>b. length (hd b)) subs))) @ py_join ''  '' fs @ sfx \<and>
           map length fs = map (\<lambda>b. length (hd b)) subs \<and>
           (\<forall>j<length subs. r < length (subs ! j) \<longrightarrow> fs ! j = subs ! j ! r)"
proof -
  let ?M = "Max (set (map length subs))"
  let ?fs = "map (\<lambda>b. (b @ replicate (?M - length b) (py_repeat (int (length (hd b))) '' '')) ! r) subs"
  have lens: "map length ?fs = map (\<lambda>b. length (hd b)) subs"
    using blocks r by (auto intro!: padded_row_length)
  then have lenJ: "length (py_join ''  '' ?fs) = links_width (map (\<lambda>b. length (hd b)) subs)"
    by (simp add: length_py_join links_width_def o_def del: map_eq_conv)
  have row: "merged_rows W subs ! r = py_center (int W) (py_join ''  '' ?fs)"
    using r by (simp add: merged_rows_def)
  have nth: "\<forall>j<length subs. r < length (subs ! j) \<longrightarrow> ?fs ! j = subs ! j ! r"
    by (simp add: nth_append)
  show ?thesis
    using lens nth SW lenJ unfolding row by (intro exI [of _ ?fs]) (simp add: py_center_nat)
qed

text \<open>C2: Below a node with children the links line has exactly one connector per
  child, and the \<open>i\<close>-th connector stands over the centre of the \<open>i\<close>-th child's label
  in the next line: its column minus half the label's length is where the label
  starts.  This is the alignment the comment's sample output shows.\<close>

theorem treeLines_connectors:
  assumes wf: "wf_tree (Node l cs)" and ne: "cs \<noteq> []"
  shows "\<exists>b. treeLines_tree (Node l cs) = Inr b \<and>
           length (positions CHR ''|'' (b ! (if 1 < length cs then 2 else 1))) = length cs \<and>
           (\<forall>i < length cs.
              take (length (label_of (cs ! i)))
                (drop (positions CHR ''|'' (b ! (if 1 < length cs then 2 else 1)) ! i -
                       (length (label_of (cs ! i)) - 1) div 2)
                  (b ! (if 1 < length cs then 3 else 2))) = label_of (cs ! i))"
proof -
  define W where "W = block_width (Node l cs)"
  define ws where "ws = map block_width cs"
  define subs where "subs = map (\<lambda>c. projr (treeLines_tree c)) cs"
  define lp where "lp = center_left W (links_width ws)"
  have wfc: "\<forall>c\<in>set cs. wf_tree c" using wf by (simp add: list_all_iff)
  have kids: "block_ok c (projr (treeLines_tree c))" if "c \<in> set cs" for c
    using wfc that treeLines_tree_block by blast
  have hdlen: "length (hd (projr (treeLines_tree c))) = block_width c" if "c \<in> set cs" for c
    using kids [OF that] rect_hd_length unfolding block_ok_def by blast
  have ws1: "\<forall>w\<in>set ws. 1 \<le> w" using kids unfolding ws_def block_ok_def by auto
  have SW: "links_width ws < W" using ne by (simp add: W_def ws_def)
  have kidsne: "projr (treeLines_tree c) \<noteq> []" if "c \<in> set cs" for c
    using kids [OF that] unfolding block_ok_def rect_def by blast
  have nonempty: "[] \<notin> set subs" using kidsne by (force simp: subs_def)
  have subsne: "subs \<noteq> []" using ne by (simp add: subs_def)
  have hdws: "map (\<lambda>b. length (hd b)) subs = ws" by (simp add: subs_def ws_def hdlen)
  obtain b where b: "treeLines_tree (Node l cs) = Inr b"
    and bform: "b = [py_center (int W) l] @
         (if 1 < length cs
          then [span_shape W (hd (bar_cols lp ws)) ((W - 1) div 2) (last (bar_cols lp ws))] else []) @
         [links_line W ws] @ merged_rows W subs"
    using treeLines_tree_node [OF wf ne] by (simp add: W_def ws_def subs_def lp_def)
  have rowsne: "merged_rows W subs \<noteq> []" using merged_rows_first [OF subsne nonempty] by blast
  have links: "b ! (if 1 < length cs then 2 else 1) = links_line W ws"
    by (cases "1 < length cs") (simp_all add: bform nth_append)
  have row: "b ! (if 1 < length cs then 3 else 2) = hd (merged_rows W subs)"
    using rowsne by (cases "1 < length cs") (simp_all add: bform nth_append hd_conv_nth)
  have bars: "positions CHR ''|'' (links_line W ws) = bar_cols lp ws"
    using links_line_positions [OF ws1 SW] by (simp add: links_line_def lp_def)
  let ?J = "py_join ''  '' (map hd subs)"
  have lenws: "length ws = length cs" by (simp add: ws_def)
  have lenJ: "length ?J = links_width ws"
    using hdws lenws by (simp add: length_py_join links_width_def o_def subs_def del: map_eq_conv)
  have row0: "hd (merged_rows W subs) = spaces lp @ ?J @ spaces (W - links_width ws - lp)"
    using merged_rows_first(2) [OF subsne nonempty] SW lenJ by (simp add: py_center_nat lp_def)
  have align: "take (length (label_of (cs ! i)))
                 (drop (bar_cols lp ws ! i - (length (label_of (cs ! i)) - 1) div 2)
                   (hd (merged_rows W subs))) = label_of (cs ! i)"
    if i: "i < length cs" for i
  proof -
    have c: "cs ! i \<in> set cs" using i by simp
    let ?L = "length (label_of (cs ! i))"
    have field: "map hd subs ! i = spaces (center_left (ws ! i) ?L) @ label_of (cs ! i) @
            spaces (ws ! i - ?L - center_left (ws ! i) ?L)"
      using kids [OF c] i unfolding block_ok_def by (simp add: subs_def ws_def py_center_nat)
    have L1: "1 \<le> ?L" using wfc c wf_label_length by (cases "cs ! i") auto
    have Lw: "?L \<le> ws ! i" using label_le_block_width [of "cs ! i"] i by (simp add: ws_def)
    have i': "i < length (map hd subs)" using i by (simp add: subs_def)
    have ws': "map length (map hd subs) = ws" using hdws by (simp add: comp_def)
    from i' ws' field L1 Lw show ?thesis unfolding row0 by (rule label_under_bar)
  qed
  show ?thesis
    using b links row bars align by (simp add: ws_def)
qed

theorem treeLines_connectors_witness:
  "wf_tree (Node ''top'' [Node ''a'' [], Node ''bcd'' [Node ''x'' []]]) \<and>
   [Node ''a'' [], Node ''bcd'' [Node ''x'' []]] \<noteq> [] \<and>
   (\<exists>b. treeLines_tree (Node ''top'' [Node ''a'' [], Node ''bcd'' [Node ''x'' []]]) = Inr b \<and>
      length (positions CHR ''|'' (b ! (if 1 < length [Node ''a'' [], Node ''bcd'' [Node ''x'' []]] then 2 else 1))) =
        length [Node ''a'' [], Node ''bcd'' [Node ''x'' []]] \<and>
      (\<forall>i < length [Node ''a'' [], Node ''bcd'' [Node ''x'' []]].
         take (length (label_of ([Node ''a'' [], Node ''bcd'' [Node ''x'' []]] ! i)))
           (drop (positions CHR ''|'' (b ! (if 1 < length [Node ''a'' [], Node ''bcd'' [Node ''x'' []]] then 2 else 1)) ! i -
                  (length (label_of ([Node ''a'' [], Node ''bcd'' [Node ''x'' []]] ! i)) - 1) div 2)
             (b ! (if 1 < length [Node ''a'' [], Node ''bcd'' [Node ''x'' []]] then 3 else 2))) =
         label_of ([Node ''a'' [], Node ''bcd'' [Node ''x'' []]] ! i)))"
proof -
  have wf: "wf_tree (Node ''top'' [Node ''a'' [], Node ''bcd'' [Node ''x'' []]])"
    by (simp add: wf_label_def)
  have ne: "[Node ''a'' [], Node ''bcd'' [Node ''x'' []]] \<noteq> []" by simp
  from wf ne treeLines_connectors [OF wf ne] show ?thesis by blast
qed

text \<open>C3: With two or more children the second line is the span line: spaces up to and
  including the first connector's column, underscores, a single bar in the column
  where the node's label is centred in the first line, underscores up to the last
  connector's column, spaces.  The first connector is left of the centre and the last
  one right of it, so both underscore counts of line 55 are non-negative.\<close>

theorem treeLines_span:
  assumes wf: "wf_tree (Node l cs)" and two: "1 < length cs"
  shows "\<exists>b. treeLines_tree (Node l cs) = Inr b \<and>
           (let bars = positions CHR ''|'' (b ! 2); c = (block_width (Node l cs) - 1) div 2 in
              b ! 1 = span_shape (block_width (Node l cs)) (hd bars) c (last bars) \<and>
              hd bars < c \<and> c < last bars \<and>
              take (length l) (drop (c - (length l - 1) div 2) (b ! 0)) = l)"
proof -
  define W where "W = block_width (Node l cs)"
  define ws where "ws = map block_width cs"
  define lp where "lp = center_left W (links_width ws)"
  have ne: "cs \<noteq> []" using two by auto
  have lab: "wf_label l" and wfc: "\<forall>c\<in>set cs. wf_tree c" using wf by (simp_all add: list_all_iff)
  have ws1: "\<forall>w\<in>set ws. 1 \<le> w"
    using wfc treeLines_tree_block unfolding ws_def block_ok_def by auto
  have SW: "links_width ws < W" and LW: "length l \<le> W" using ne by (simp_all add: W_def ws_def)
  have two': "2 \<le> length ws" using two by (simp add: ws_def)
  have L1: "1 \<le> length l" using lab by (rule wf_label_length)
  obtain b where b: "treeLines_tree (Node l cs) = Inr b"
    and bform: "b = [py_center (int W) l] @
         [span_shape W (hd (bar_cols lp ws)) ((W - 1) div 2) (last (bar_cols lp ws))] @
         [links_line W ws] @ merged_rows W (map (\<lambda>c. projr (treeLines_tree c)) cs)"
    using treeLines_tree_node [OF wf ne] two by (simp add: W_def ws_def lp_def)
  have bars: "positions CHR ''|'' (b ! 2) = bar_cols lp ws"
    using links_line_positions [OF ws1 SW] by (simp add: bform links_line_def lp_def)
  have centre: "(W - 1) div 2 - (length l - 1) div 2 = center_left W (length l)"
    using center_left_label [OF L1 LW] by linarith
  have "take (length l) (drop (center_left W (length l)) (py_center (int W) l)) = l"
    by (simp add: py_center_nat)
  with centre have lbl: "take (length l) (drop ((W - 1) div 2 - (length l - 1) div 2) (b ! 0)) = l"
    by (simp add: bform)
  have sp: "b ! 1 = span_shape W (hd (bar_cols lp ws)) ((W - 1) div 2) (last (bar_cols lp ws))"
    by (simp add: bform)
  show ?thesis
    unfolding W_def [symmetric] Let_def
    using b sp lbl span_bounds(1,2) [OF ws1 two' SW]
    by (intro exI [of _ b] conjI) (simp_all add: bars lp_def del: treeLines_tree.simps)
qed

lemma tree_block_height:
  assumes "wf_tree t"
  shows "\<exists>b. treeLines_tree t = Inr b \<and> length b = block_height t"
  using assms
proof (induction t)
  case (Node l cs)
  have wfc: "\<forall>c\<in>set cs. wf_tree c" using Node.prems by (simp add: list_all_iff)
  have len: "length (projr (treeLines_tree c)) = block_height c" if "c \<in> set cs" for c
  proof -
    from Node.IH [OF that] wfc that obtain b where "treeLines_tree c = Inr b" "length b = block_height c"
      by blast
    then show ?thesis by simp
  qed
  show ?case
  proof (cases "cs = []")
    case True
    then show ?thesis by simp
  next
    case False
    have "map length (map (\<lambda>c. projr (treeLines_tree c)) cs) = map block_height cs"
      by (simp add: len)
    with False show ?thesis
      using treeLines_tree_node [OF Node.prems False] by (simp del: map_map)
  qed
qed

text \<open>C4: The number of lines: one for a leaf; for an inner node the label line, the span
  line when there are two or more children, the links line, and the height of the
  tallest child block.\<close>

theorem treeLines_height:
  assumes "wf_tree t"
  shows "\<exists>b. treeLines_tree t = Inr b \<and> length b = block_height t"
  using assms by (rule tree_block_height)

theorem treeLines_span_witness:
  "wf_tree (Node ''root'' [Node ''a'' [], Node ''b'' []]) \<and> 1 < length [Node ''a'' [], Node ''b'' []] \<and>
   (\<exists>b. treeLines_tree (Node ''root'' [Node ''a'' [], Node ''b'' []]) = Inr b \<and>
      b ! 1 = span_shape 5 (hd (positions CHR ''|'' (b ! 2))) 2 (last (positions CHR ''|'' (b ! 2))) \<and>
      hd (positions CHR ''|'' (b ! 2)) < 2 \<and> 2 < last (positions CHR ''|'' (b ! 2)))"
proof -
  have wf: "wf_tree (Node ''root'' [Node ''a'' [], Node ''b'' []])" by (simp add: wf_label_def)
  have bw: "block_width (Node ''root'' [Node ''a'' [], Node ''b'' []]) = 5"
    by (simp add: links_width_def)
  have two: "1 < length [Node ''a'' [], Node ''b'' []]" by simp
  from treeLines_span [OF wf two] bw wf two show ?thesis by (simp only: Let_def) auto
qed

theorem treeLines_height_witness:
  "wf_tree (Node ''r'' [Node ''a'' [Node ''x'' [], Node ''y'' []], Node ''b'' []]) \<and>
   (\<exists>b. treeLines_tree (Node ''r'' [Node ''a'' [Node ''x'' [], Node ''y'' []], Node ''b'' []]) = Inr b \<and>
        length b = 7)"
proof -
  have wf: "wf_tree (Node ''r'' [Node ''a'' [Node ''x'' [], Node ''y'' []], Node ''b'' []])"
    by (simp add: wf_label_def)
  have "block_height (Node ''r'' [Node ''a'' [Node ''x'' [], Node ''y'' []], Node ''b'' []]) = 7"
    by simp
  with treeLines_height [OF wf] wf show ?thesis by simp
qed

section \<open>The characters drawn\<close>

fun tree_chars :: "tree \<Rightarrow> char set" where
  "tree_chars (Node l cs) = set l \<union> \<Union> (set (map tree_chars cs))"

lemma padded_nth_chars:
  assumes "length b \<le> M" "i < M" "\<And>x. x \<in> set b \<Longrightarrow> set x \<subseteq> A" "CHR '' '' \<in> A"
  shows "set ((b @ replicate (M - length b) (py_repeat k '' '')) ! i) \<subseteq> A"
proof -
  have "(b @ replicate (M - length b) (py_repeat k '' '')) ! i \<in> set b \<union> {py_repeat k '' ''}"
    using assms(1,2) nth_mem [of i "b @ replicate (M - length b) (py_repeat k '' '')"] by auto
  moreover have "set (py_repeat k '' '') \<subseteq> A" using assms(4) by (intro set_py_repeat_bound) simp
  ultimately show ?thesis using assms(3) by (elim UnE) auto
qed

lemma treeLines_node_chars:
  assumes "treeLines_node l subs = Inr b"
    and A: "set l \<subseteq> A" "\<And>x. x \<in> set (concat subs) \<Longrightarrow> set x \<subseteq> A" "{CHR '' '', CHR ''_'', CHR ''|''} \<subseteq> A"
  shows "\<forall>line\<in>set b. set line \<subseteq> A"
proof (cases "subs = []")
  case True
  with assms show ?thesis by auto
next
  case False
  let ?W = "max (sum_list (map (\<lambda>c. int (length (hd c))) subs) + 2 * int (length subs) - 1) (int (length l))"
  let ?M = "Max (set (map length subs))"
  let ?pad = "\<lambda>b. b @ replicate (?M - length b) (py_repeat (int (length (hd b))) '' '')"
  let ?row = "\<lambda>i. py_center ?W (py_join ''  '' (map (\<lambda>b. b ! i) (map ?pad subs)))"
  let ?links = "py_center ?W (py_join ''  '' (map (\<lambda>w. py_center w ''|'') (map (\<lambda>c. int (length (hd c))) subs)))"
  have "\<exists>a c d e. b = [py_center ?W l] @
      (if 1 < length subs then [py_repeat a '' '' @ py_repeat c ''_'' @ ''|'' @ py_repeat d ''_'' @ py_repeat e '' ''] else []) @
      [?links] @ map ?row [0..<?M]"
    using assms(1) False unfolding treeLines_node_def Let_def
    by (auto simp: py_bind_def split: if_splits sum.splits simp del: map_map)
  then obtain a c d e where b: "b = [py_center ?W l] @
      (if 1 < length subs then [py_repeat a '' '' @ py_repeat c ''_'' @ ''|'' @ py_repeat d ''_'' @ py_repeat e '' ''] else []) @
      [?links] @ map ?row [0..<?M]"
    by blast
  have sp: "CHR '' '' \<in> A" using A(3) by blast
  have span: "set (py_repeat a '' '' @ py_repeat c ''_'' @ ''|'' @ py_repeat d ''_'' @ py_repeat e '' '') \<subseteq> A"
    using A(3) by (simp add: set_py_repeat_bound)
  have bar: "set (py_center w ''|'') \<subseteq> A" for w using A(3) by (intro set_py_center_bound) auto
  have links: "set ?links \<subseteq> A"
    using A(3) bar by (intro set_py_center_bound set_py_join_bound) auto
  have row: "set (?row i) \<subseteq> A" if "i < ?M" for i
  proof (intro set_py_center_bound set_py_join_bound sp)
    fix x assume "x \<in> set (map (\<lambda>b. b ! i) (map ?pad subs))"
    then obtain c where c: "c \<in> set subs" and x: "x = ?pad c ! i" by auto
    have "length c \<le> ?M" using c by (simp add: Max_ge_iff)
    then show "set x \<subseteq> A" unfolding x
      using that c A(2) sp by (intro padded_nth_chars) auto
  qed (use sp in simp)
  show ?thesis
    unfolding b using span links row set_py_center_bound [OF A(1) sp]
    by (auto simp del: map_map) (use row in blast)
qed

lemma tree_block_chars:
  "treeLines_tree t = Inr b \<Longrightarrow> \<forall>line\<in>set b. set line \<subseteq> tree_chars t \<union> {CHR '' '', CHR ''_'', CHR ''|''}"
proof (induction t arbitrary: b rule: treeLines_tree.induct)
  case (1 l cs)
  let ?A = "tree_chars (Node l cs) \<union> {CHR '' '', CHR ''_'', CHR ''|''}"
  from "1.prems" obtain subs where seq: "map treeLines_tree cs = map Inr subs"
    and node: "treeLines_node l subs = Inr b"
    by (auto simp: py_bind_def split: sum.splits)
  have kids: "set x \<subseteq> ?A" if "x \<in> set (concat subs)" for x
  proof -
    from that obtain sub where sub: "sub \<in> set subs" "x \<in> set sub" by auto
    then have "Inr sub \<in> set (map treeLines_tree cs)" unfolding seq by simp
    then obtain c where c: "c \<in> set cs" "treeLines_tree c = Inr sub" by auto
    with "1.IH" sub(2) have "set x \<subseteq> tree_chars c \<union> {CHR '' '', CHR ''_'', CHR ''|''}" by blast
    with c(1) show ?thesis by auto
  qed
  show ?case by (rule treeLines_node_chars [OF node]) (use kids in auto)
qed

text \<open>C16: The renderer draws with the labels' characters, spaces, underscores and
  vertical bars only: every line of the block of a tree uses no other character.\<close>

theorem treeLines_tree_chars:
  "treeLines_tree t = Inr b \<Longrightarrow> \<forall>line\<in>set b. set line \<subseteq> tree_chars t \<union> {CHR '' '', CHR ''_'', CHR ''|''}"
  by (rule tree_block_chars)

theorem treeLines_tree_chars_witness:
  "projr (treeLines_tree (Node ''ab'' [Node ''c'' [], Node ''d'' []])) = [''  ab '', ''  |_ '', '' |  |'', '' c  d''] \<and>
   set (concat (projr (treeLines_tree (Node ''ab'' [Node ''c'' [], Node ''d'' []])))) \<subseteq>
     tree_chars (Node ''ab'' [Node ''c'' [], Node ''d'' []]) \<union> {CHR '' '', CHR ''_'', CHR ''|''}"
proof -
  have b: "treeLines_tree (Node ''ab'' [Node ''c'' [], Node ''d'' []]) = Inr [''  ab '', ''  |_ '', '' |  |'', '' c  d'']"
    by code_simp
  have "\<forall>line\<in>set [''  ab '', ''  |_ '', '' |  |'', '' c  d'']. set line \<subseteq>
          tree_chars (Node ''ab'' [Node ''c'' [], Node ''d'' []]) \<union> {CHR '' '', CHR ''_'', CHR ''|''}"
    by (rule treeLines_tree_chars [OF b])
  then show ?thesis unfolding b by (simp only: sum.sel set_concat UN_subset_iff simp_thms)
qed

section \<open>No exception on any tree\<close>

text \<open>The three \<open>index\<close> calls of lines 50--52 always find what they look for: the
  links line contains a connector (so does its reverse), and the label line contains the
  label.  So a node never raises once its children's blocks are non-empty.\<close>

lemma treeLines_node_Inr:
  assumes ne: "[] \<notin> set subs"
  shows "\<exists>b. treeLines_node l subs = Inr b \<and> b \<noteq> []"
proof (cases "subs = []")
  case False
  let ?ws = "map (\<lambda>childText. int (length (hd childText))) subs"
  let ?W = "max (sum_list ?ws + 2 * int (length ?ws) - 1) (int (length l))"
  let ?links = "py_center ?W (py_join ''  '' (map (\<lambda>width. py_center width ''|'') ?ws))"
  have "\<exists>p r. py_join ''  '' (map (\<lambda>width. py_center width ''|'') ?ws) =
          p @ py_center (hd ?ws) ''|'' @ r"
    using py_join_infix [of "map (\<lambda>width. py_center width ''|'') ?ws" "''  ''"] False
    by (simp add: hd_map)
  then have bar: "\<exists>p r. ?links = p @ ''|'' @ r"
    by (rule infix_trans [OF py_center_infix infix_trans [OF _ py_center_infix]])
  obtain li where li: "py_index ?links ''|'' = Inr li" using py_index_infix [OF bar] by blast
  obtain ri where ri: "py_index (rev ?links) ''|'' = Inr ri"
    using py_index_infix [OF infix_rev [OF bar]] by auto
  obtain ni where ni: "py_index (py_center ?W l) l = Inr ni" using py_index_infix [OF py_center_infix] by blast
  show ?thesis using ne False li ri ni by (simp add: treeLines_node_def Let_def)
qed (simp add: treeLines_node_def Let_def)

lemma treeLines_tree_Inr: "\<exists>b. treeLines_tree t = Inr b \<and> b \<noteq> []"
proof (induction t rule: treeLines_tree.induct)
  case (1 l cs)
  let ?B = "\<lambda>c. projr (treeLines_tree c)"
  have kids: "treeLines_tree c = Inr (?B c) \<and> ?B c \<noteq> []" if "c \<in> set cs" for c
    using "1.IH" [OF that] by auto
  then have "map treeLines_tree cs = map Inr (map ?B cs)" by simp
  then have seq: "py_seq (map treeLines_tree cs) = Inr (map ?B cs)" by (simp only: py_seq_Inr_iff)
  have "[] \<notin> set (map ?B cs)"
  proof
    assume "[] \<in> set (map ?B cs)"
    then obtain c where "c \<in> set cs" "?B c = []" by (auto simp del: projr_def)
    with kids show False by blast
  qed
  then have "\<exists>b. treeLines_node l (map ?B cs) = Inr b \<and> b \<noteq> []" by (rule treeLines_node_Inr)
  then show ?case by (simp only: treeLines_tree.simps seq py_bind_simps)
qed

text \<open>C18: \<open>printTree(root, lambda n:(n.label,n.children))\<close> never raises on a
  finite tree whose depth is within the recursion limit, whatever its labels (empty or
  blank ones included): no \<open>IndexError\<close> from \<open>childText[0]\<close>, no \<open>ValueError\<close>
  from the three \<open>index\<close> calls, no \<open>RecursionError\<close>; it prints a non-empty block,
  one line per \<open>print\<close>.\<close>

theorem printTree_never_raises:
  assumes "depth t \<le> limit"
  shows "\<exists>lines. treeLines limit node_info t = Inr lines \<and> lines \<noteq> [] \<and>
           printTree limit node_info t = Inr (concat (map (\<lambda>line. line @ ''\<newline>'') lines))"
  using treeLines_node_info_eq [OF assms] treeLines_tree_Inr [of t] by (auto simp: printTree_def)

theorem printTree_never_raises_witness:
  "\<exists>lines. treeLines 2 node_info (Node [] [Node '' '' []]) = Inr lines \<and> lines \<noteq> [] \<and>
     printTree 2 node_info (Node [] [Node '' '' []]) = Inr (concat (map (\<lambda>line. line @ ''\<newline>'') lines))"
  by (rule printTree_never_raises) simp

lemma subtree_embedded:
  assumes wf: "wf_tree (Node l cs)" and j: "j < length cs"
    and r: "r < length (projr (treeLines_tree (cs ! j)))"
  shows "\<exists>b. treeLines_tree (Node l cs) = Inr b \<and>
           take (block_width (cs ! j))
             (drop (center_left (block_width (Node l cs)) (links_width (map block_width cs)) +
                    sum_list (map (\<lambda>w. w + 2) (take j (map block_width cs))))
               (b ! ((if 1 < length cs then 3 else 2) + r))) =
           projr (treeLines_tree (cs ! j)) ! r"
proof -
  define W where "W = block_width (Node l cs)"
  define ws where "ws = map block_width cs"
  define subs where "subs = map (\<lambda>c. projr (treeLines_tree c)) cs"
  have ne: "cs \<noteq> []" using j by auto
  have wfc: "\<forall>c\<in>set cs. wf_tree c" using wf by (simp add: list_all_iff)
  have kids: "block_ok c (projr (treeLines_tree c))" if "c \<in> set cs" for c
    using wfc that treeLines_tree_block by blast
  have hdlen: "length (hd (projr (treeLines_tree c))) = block_width c" if "c \<in> set cs" for c
    using kids [OF that] rect_hd_length unfolding block_ok_def by blast
  have hdws: "map (\<lambda>b. length (hd b)) subs = ws" by (simp add: subs_def ws_def hdlen)
  have blocks: "\<forall>b\<in>set subs. rect (length (hd b)) b"
    using kids rect_hd_length unfolding block_ok_def subs_def by fastforce
  have SW: "links_width ws \<le> W" using ne by (simp add: W_def ws_def)
  have Mj: "length (subs ! j) \<le> Max (set (map length subs))"
    using j by (intro Max_ge) (simp_all add: subs_def)
  have "r < length (subs ! j)" using r j by (simp add: subs_def)
  then have rM: "r < Max (set (map length subs))" using Mj by (rule less_le_trans)
  obtain b where b: "treeLines_tree (Node l cs) = Inr b"
    and bform: "b = [py_center (int W) l] @
         (if 1 < length cs
          then [span_shape W (hd (bar_cols (center_left W (links_width ws)) ws)) ((W - 1) div 2)
                  (last (bar_cols (center_left W (links_width ws)) ws))] else []) @
         [links_line W ws] @ merged_rows W subs"
    using treeLines_tree_node [OF wf ne] by (simp add: W_def ws_def subs_def)
  have row: "b ! ((if 1 < length cs then 3 else 2) + r) = merged_rows W subs ! r"
    by (simp add: bform nth_append)
  obtain fs sfx where fs: "merged_rows W subs ! r = spaces (center_left W (links_width ws)) @ py_join ''  '' fs @ sfx"
    and lens: "map length fs = ws" and nth: "\<forall>j<length subs. r < length (subs ! j) \<longrightarrow> fs ! j = subs ! j ! r"
    using merged_row_fields [OF blocks _ rM] SW unfolding hdws by blast
  have jfs: "j < length fs" using lens j by (auto simp: ws_def dest: arg_cong [where f = length])
  have "take (ws ! j) (drop (center_left W (links_width ws) + sum_list (map (\<lambda>w. w + 2) (take j ws)))
          (merged_rows W subs ! r)) = fs ! j"
    unfolding fs by (rule field_at_col [OF jfs lens])
  also have "fs ! j = subs ! j ! r" using nth j r by (simp add: subs_def)
  finally show ?thesis using b row j by (simp add: W_def ws_def subs_def)
qed

text \<open>C19: A parent's block contains each child's block unchanged: row \<open>r\<close> of the
  \<open>j\<close>-th child stands in the parent's row \<open>r\<close> below the links line, at the column
  where the \<open>j\<close>-th field of the centred \<open>"  ".join\<close> starts, over the child's
  width.  The layout is compositional: no child is clipped, shifted within its field
  or overwritten.\<close>

theorem treeLines_subtree_embedded:
  assumes wf: "wf_tree (Node l cs)" and j: "j < length cs"
    and r: "r < length (projr (treeLines_tree (cs ! j)))"
  shows "\<exists>b. treeLines_tree (Node l cs) = Inr b \<and>
           take (block_width (cs ! j))
             (drop (center_left (block_width (Node l cs)) (links_width (map block_width cs)) +
                    sum_list (map (\<lambda>w. w + 2) (take j (map block_width cs))))
               (b ! ((if 1 < length cs then 3 else 2) + r))) =
           projr (treeLines_tree (cs ! j)) ! r"
  using assms by (rule subtree_embedded)

theorem treeLines_subtree_embedded_witness:
  "\<exists>b. treeLines_tree (Node ''top'' [Node ''a'' [], Node ''bcd'' [Node ''x'' []]]) = Inr b \<and>
     take 3 (drop 4 (b ! 4)) = '' | ''"
proof -
  let ?cs = "[Node ''a'' [], Node ''bcd'' [Node ''x'' []]]"
  have wf: "wf_tree (Node ''top'' ?cs)" by (simp add: wf_label_def)
  have j: "1 < length ?cs" by simp
  have child: "treeLines_tree (Node ''bcd'' [Node ''x'' []]) = Inr [''bcd'', '' | '', '' x '']" by code_simp
  then have r: "1 < length (projr (treeLines_tree (?cs ! 1)))" by simp
  have nums: "block_width (?cs ! 1) = 3"
    "center_left (block_width (Node ''top'' ?cs)) (links_width (map block_width ?cs)) +
       sum_list (map (\<lambda>w. w + 2) (take 1 (map block_width ?cs))) = 4"
    "(if 1 < length ?cs then 3 else 2) + 1 = (4::nat)"
    by (simp_all add: links_width_def center_left_def)
  from treeLines_subtree_embedded [OF wf j r] child show ?thesis unfolding nums by simp
qed

section \<open>Reading the printed text back\<close>

text \<open>Python's \<open>s.split(sep)\<close> for a one-character separator.\<close>

fun py_split :: "char \<Rightarrow> string \<Rightarrow> string list" where
  "py_split c [] = [[]]"
| "py_split c (x # xs) =
     (if x = c then [] # py_split c xs
      else (case py_split c xs of y # ys \<Rightarrow> (x # y) # ys | [] \<Rightarrow> [[x]]))"

lemma py_split_ne: "py_split c s \<noteq> []"
  by (induction c s rule: py_split.induct) (auto split: list.splits)

lemma py_split_line: "c \<notin> set l \<Longrightarrow> py_split c (l @ c # rest) = l # py_split c rest"
  by (induction l) (auto split: list.splits)

lemma py_split_lines:
  "\<forall>l\<in>set ls. c \<notin> set l \<Longrightarrow> py_split c (concat (map (\<lambda>l. l @ [c]) ls)) = ls @ [[]]"
  by (induction ls) (simp_all add: py_split_line)

text \<open>When no label contains a newline, splitting what \<open>printTree\<close> writes at its
  newlines gives back exactly the block's lines, then the empty string after the last
  newline: every \<open>print\<close> writes one line of the block, and no line of the block
  breaks.\<close>

lemma printTree_lines_roundtrip:
  assumes "depth t \<le> limit" "CHR ''\<newline>'' \<notin> tree_chars t"
  shows "\<exists>lines out. treeLines_tree t = Inr lines \<and> printTree limit node_info t = Inr out \<and>
           py_split CHR ''\<newline>'' out = lines @ [[]]"
proof -
  obtain lines where lines: "treeLines_tree t = Inr lines" using treeLines_tree_Inr by blast
  have nl: "\<forall>l\<in>set lines. CHR ''\<newline>'' \<notin> set l"
    using tree_block_chars [OF lines] assms(2) by fastforce
  have "printTree limit node_info t = Inr (concat (map (\<lambda>l. l @ ''\<newline>'') lines))"
    using treeLines_node_info_eq [OF assms(1)] lines by (simp add: printTree_def)
  with lines py_split_lines [OF nl] show ?thesis by auto
qed

section \<open>Size of the drawing\<close>

lemma block_height_depth: "block_height t + 2 \<le> 3 * depth t"
proof (induction t)
  case (Node l cs)
  show ?case
  proof (cases "cs = []")
    case False
    have "block_height c + 2 \<le> 3 * Max (insert 0 (set (map depth cs)))" if "c \<in> set cs" for c
    proof -
      have "depth c \<le> Max (insert 0 (set (map depth cs)))" using that by simp
      with Node.IH [OF that] show ?thesis by linarith
    qed
    moreover obtain c where "c \<in> set cs" "Max (set (map block_height cs)) = block_height c"
    proof -
      have "Max (set (map block_height cs)) \<in> set (map block_height cs)" using False by (intro Max_in) simp_all
      then show ?thesis using that by auto
    qed
    ultimately have "Max (set (map block_height cs)) + 2 \<le> 3 * Max (insert 0 (set (map depth cs)))"
      by simp
    with False show ?thesis by simp
  qed simp
qed

text \<open>C21: A well-formed tree of depth \<open>d\<close> is drawn in at most \<open>3 * d - 2\<close> lines:
  one line for a leaf, and at most three more (label, span, links) per level.\<close>

theorem treeLines_height_bound:
  assumes "wf_tree t"
  shows "\<exists>b. treeLines_tree t = Inr b \<and> length b \<le> 3 * depth t - 2"
  using tree_block_height [OF assms] block_height_depth [of t] by auto

theorem treeLines_height_bound_witness:
  "\<exists>b. treeLines_tree (Node ''r'' [Node ''a'' [Node ''b'' []], Node ''c'' []]) = Inr b \<and> length b \<le> 7"
  using treeLines_height_bound [of "Node ''r'' [Node ''a'' [Node ''b'' []], Node ''c'' []]"]
  by (simp add: wf_label_def)

section \<open>Every label is drawn\<close>

fun tree_labels :: "tree \<Rightarrow> string list" where
  "tree_labels (Node l cs) = l # concat (map tree_labels cs)"

lemma field_end_le_links:
  assumes "j < length ws"
  shows "sum_list (map (\<lambda>w. w + 2) (take j ws)) + ws ! j \<le> links_width ws"
proof -
  have "sum_list (map (\<lambda>w. w + 2) (take j ws)) = sum_list (take j ws) + 2 * j"
    using assms by (induction ws arbitrary: j) (auto simp: take_Cons split: nat.splits)
  moreover have "sum_list (take j ws) + ws ! j \<le> sum_list ws"
  proof -
    have "sum_list (take (Suc j) ws) \<le> sum_list ws"
      by (metis append_take_drop_id le_add1 sum_list_append)
    then show ?thesis using assms by (simp add: take_Suc_conv_app_nth)
  qed
  ultimately show ?thesis using assms by (simp add: links_width_def)
qed

lemma label_in_block:
  assumes "wf_tree t" "lab \<in> set (tree_labels t)"
  shows "\<exists>r col. r < length (projr (treeLines_tree t)) \<and> col + length lab \<le> block_width t \<and>
           take (length lab) (drop col (projr (treeLines_tree t) ! r)) = lab"
  using assms
proof (induction t arbitrary: lab)
  case (Node l cs)
  let ?b = "projr (treeLines_tree (Node l cs))"
  let ?W = "block_width (Node l cs)"
  have ok: "treeLines_tree (Node l cs) = Inr ?b" "block_ok (Node l cs) ?b"
    using treeLines_tree_block [OF Node.prems(1)] by simp_all
  have ne: "?b \<noteq> []" using ok(2) unfolding block_ok_def rect_def by blast
  have "hd ?b = py_center (int ?W) l" using ok(2) unfolding block_ok_def by simp
  then have b0: "?b ! 0 = spaces (center_left ?W (length l)) @ l @ spaces (?W - length l - center_left ?W (length l))"
    using ne by (metis hd_conv_nth py_center_nat)
  show ?case
  proof (cases "lab = l")
    case True
    have "center_left ?W (length l) + length l \<le> ?W"
      using center_left_le [of ?W "length l"] label_le_block_width [of "Node l cs"] by simp
    moreover have "0 < length ?b" using ne by simp
    moreover have "take (length l) (drop (center_left ?W (length l)) (?b ! 0)) = l"
      unfolding b0 by simp
    ultimately show ?thesis using True by blast
  next
    case False
    with Node.prems(2) obtain c where "c \<in> set cs" "lab \<in> set (tree_labels c)" by auto
    then obtain j where j: "j < length cs" and lab: "lab \<in> set (tree_labels (cs ! j))"
      by (metis in_set_conv_nth)
    have wfc: "wf_tree (cs ! j)" using Node.prems(1) j by (simp add: list_all_iff)
    from Node.IH [OF nth_mem [OF j] wfc lab] obtain r col where
      r: "r < length (projr (treeLines_tree (cs ! j)))" and col: "col + length lab \<le> block_width (cs ! j)"
      and at: "take (length lab) (drop col (projr (treeLines_tree (cs ! j)) ! r)) = lab" by blast
    let ?ws = "map block_width cs"
    let ?C = "center_left ?W (links_width ?ws) + sum_list (map (\<lambda>w. w + 2) (take j ?ws))"
    let ?row = "(if 1 < length cs then 3 else 2) + r"
    have emb: "take (block_width (cs ! j)) (drop ?C (?b ! ?row)) = projr (treeLines_tree (cs ! j)) ! r"
    proof -
      obtain b' where "treeLines_tree (Node l cs) = Inr b'" and
        "take (block_width (cs ! j)) (drop ?C (b' ! ?row)) = projr (treeLines_tree (cs ! j)) ! r"
        using subtree_embedded [OF Node.prems(1) j r] by blast
      then show ?thesis using ok(1) by simp
    qed
    have "take (length lab) (drop (?C + col) (?b ! ?row)) =
          take (length lab) (drop col (take (block_width (cs ! j)) (drop ?C (?b ! ?row))))"
      using col by (simp add: take_drop add.commute)
    also have "\<dots> = lab" unfolding emb by (rule at)
    finally have A: "take (length lab) (drop (?C + col) (?b ! ?row)) = lab" .
    have "?C + col + length lab \<le> ?W"
    proof -
      have "sum_list (map (\<lambda>w. w + 2) (take j ?ws)) + ?ws ! j \<le> links_width ?ws"
        using j by (intro field_end_le_links) simp
      moreover have "center_left ?W (links_width ?ws) + links_width ?ws \<le> ?W"
        using center_left_le [of ?W "links_width ?ws"] j by auto
      ultimately show ?thesis using col j by simp
    qed
    moreover have "?row < length ?b"
    proof -
      obtain b' where "treeLines_tree (Node l cs) = Inr b'" "length b' = block_height (Node l cs)"
        using tree_block_height [OF Node.prems(1)] by blast
      moreover have "length (projr (treeLines_tree (cs ! j))) \<le> Max (set (map block_height cs))"
      proof -
        obtain bj where "treeLines_tree (cs ! j) = Inr bj" "length bj = block_height (cs ! j)"
          using tree_block_height [OF wfc] by blast
        then show ?thesis using j by (auto intro!: Max_ge)
      qed
      ultimately show ?thesis using r j by auto
    qed
    ultimately show ?thesis using A by blast
  qed
qed

text \<open>C22: Nothing is lost: every label of a well-formed tree appears intact in its
  drawing, on some line, within the block's width.\<close>

theorem treeLines_all_labels_drawn:
  assumes "wf_tree t" "lab \<in> set (tree_labels t)"
  shows "\<exists>b r col. treeLines_tree t = Inr b \<and> r < length b \<and> col + length lab \<le> length (hd b) \<and>
           take (length lab) (drop col (b ! r)) = lab"
proof -
  have ok: "treeLines_tree t = Inr (projr (treeLines_tree t))" "block_ok t (projr (treeLines_tree t))"
    using treeLines_tree_block [OF assms(1)] by simp_all
  then have "length (hd (projr (treeLines_tree t))) = block_width t"
    unfolding block_ok_def using rect_hd_length by blast
  with label_in_block [OF assms] ok(1) show ?thesis by metis
qed

theorem treeLines_all_labels_drawn_witness:
  "\<exists>b r col. treeLines_tree (Node ''top'' [Node ''a'' [], Node ''bcd'' [Node ''x'' []]]) = Inr b \<and>
     r < length b \<and> col + 1 \<le> length (hd b) \<and> take 1 (drop col (b ! r)) = ''x''"
  using treeLines_all_labels_drawn [of "Node ''top'' [Node ''a'' [], Node ''bcd'' [Node ''x'' []]]" "''x''"]
  by (simp add: wf_label_def)

end
