(* ===== verification/Loop.thy ===== *)
theory Loop
  imports PyPrelude Complex_Main
begin

text \<open>
  The \<open>Loop\<close> helper of \<open>src/Loop.py\<close>: an object holding a value and a first-pass
  flag whose methods, chained in a \<open>while\<close> condition, give C-like \<open>for\<close> loops.
  The object is a record; every method is a function from the object to the updated
  object (and the Boolean it returns, for the condition methods).  \<open>next()\<close> without an
  argument reads the attribute \<open>_increment\<close>, which no method ever sets: the record
  keeps it as an optional field that \<open>__init__\<close> leaves absent, and reading it absent
  raises \<open>AttributeError\<close>.  A \<open>while\<close> statement whose condition is a chain of these
  calls is \<open>run_while\<close>: the values the body sees, with fuel bounding the iterations
  and the exception that ends the loop if one is raised.
\<close>

section \<open>The object and its methods\<close>

record 'v loop_obj =
  firstPass :: bool
  loop_value :: 'v
  increment :: "'v option"

definition Loop_init :: "'v \<Rightarrow> 'v loop_obj" where
  "Loop_init start = \<lparr>firstPass = True, loop_value = start, increment = None\<rparr>"

definition Loop_start :: "'v \<Rightarrow> 'v loop_obj \<Rightarrow> 'v loop_obj" where
  "Loop_start initial s = (if firstPass s then s\<lparr>loop_value := initial\<rparr> else s)"

definition Loop_next :: "'v::plus option \<Rightarrow> 'v loop_obj \<Rightarrow> 'v loop_obj py_result" where
  "Loop_next nextValue s =
     py_bind (case nextValue of
                None \<Rightarrow> (case increment s of None \<Rightarrow> Inl AttributeError
                                          | Some inc \<Rightarrow> Inr (loop_value s + inc))
              | Some v \<Rightarrow> Inr v)
       (\<lambda>nv. Inr (if firstPass s then s\<lparr>firstPass := False\<rparr> else s\<lparr>loop_value := nv\<rparr>))"

definition Loop_up :: "'v::plus \<Rightarrow> 'v loop_obj \<Rightarrow> 'v loop_obj py_result" where
  "Loop_up by s = Loop_next (Some (loop_value s + by)) s"

definition Loop_down :: "'v::{plus,minus} \<Rightarrow> 'v loop_obj \<Rightarrow> 'v loop_obj py_result" where
  "Loop_down by s = Loop_next (Some (loop_value s - by)) s"

definition Loop_upTo :: "'v::{plus,ord} \<Rightarrow> 'v \<Rightarrow> 'v loop_obj \<Rightarrow> bool \<times> 'v loop_obj" where
  "Loop_upTo lastv by s =
     (let s' = (if firstPass s then s\<lparr>firstPass := False\<rparr> else s\<lparr>loop_value := loop_value s + by\<rparr>)
      in (loop_value s' \<le> lastv, s'))"

definition Loop_downTo :: "'v::{minus,ord} \<Rightarrow> 'v \<Rightarrow> 'v loop_obj \<Rightarrow> bool \<times> 'v loop_obj" where
  "Loop_downTo lastv by s =
     (let s' = (if firstPass s then s\<lparr>firstPass := False\<rparr> else s\<lparr>loop_value := loop_value s - by\<rparr>)
      in (lastv \<le> loop_value s', s'))"

definition Loop_loop :: "bool \<Rightarrow> 'v loop_obj \<Rightarrow> bool \<times> 'v loop_obj" where
  "Loop_loop condition s = (condition, s\<lparr>firstPass := False\<rparr>)"

definition Loop_until :: "bool \<Rightarrow> 'v loop_obj \<Rightarrow> bool \<times> 'v loop_obj" where
  "Loop_until condition s = (\<not> condition, s\<lparr>firstPass := False\<rparr>)"

text \<open>\<open>__invert__\<close> and \<open>__neg__\<close>, the two unary operators that do more than pass the
  value through: both return the negated value.\<close>

definition Loop_invert :: "'v::uminus loop_obj \<Rightarrow> 'v" where
  "Loop_invert s = - loop_value s"

definition Loop_neg :: "'v::uminus loop_obj \<Rightarrow> 'v" where
  "Loop_neg s = - loop_value s"

section \<open>While statements over a loop object\<close>

text \<open>The condition of \<open>while cond: body\<close> is evaluated before every iteration; the
  body here only reads the value (the demos print it).  Result: the values seen by the
  body and the exception that ended the loop, \<open>None\<close> when the fuel runs out.\<close>

type_synonym 'v header = "'v loop_obj \<Rightarrow> (bool \<times> 'v loop_obj) py_result"

fun run_while :: "nat \<Rightarrow> 'v header \<Rightarrow> 'v loop_obj \<Rightarrow> ('v list \<times> py_error option) option" where
  "run_while 0 cond s = None"
| "run_while (Suc n) cond s =
     (case cond s of
        Inl e \<Rightarrow> Some ([], Some e)
      | Inr (False, s') \<Rightarrow> Some ([], None)
      | Inr (True, s') \<Rightarrow> map_option (\<lambda>(vs, e). (loop_value s' # vs, e)) (run_while n cond s'))"

text \<open>The condition chains of the module's usage comment and demos.  Python evaluates a
  chain left to right: the argument of \<open>next\<close> is computed after \<open>start\<close> has run,
  and the argument of \<open>loop\<close> or \<open>until\<close> after \<open>next\<close>.\<close>

definition start_next_loop :: "'v \<Rightarrow> ('v \<Rightarrow> 'v::plus) \<Rightarrow> ('v \<Rightarrow> bool) \<Rightarrow> 'v header" where
  "start_next_loop a f c s =
     (let s1 = Loop_start a s
      in py_bind (Loop_next (Some (f (loop_value s1))) s1) (\<lambda>s2. Inr (Loop_loop (c (loop_value s2)) s2)))"

definition next_until :: "('v \<Rightarrow> 'v::plus) \<Rightarrow> ('v \<Rightarrow> bool) \<Rightarrow> 'v header" where
  "next_until f c s = py_bind (Loop_next (Some (f (loop_value s))) s) (\<lambda>s2. Inr (Loop_until (c (loop_value s2)) s2))"

definition start_upTo :: "'v \<Rightarrow> 'v \<Rightarrow> 'v::{plus,ord} \<Rightarrow> 'v header" where
  "start_upTo a lastv by s = Inr (Loop_upTo lastv by (Loop_start a s))"

definition upTo_only :: "'v \<Rightarrow> 'v::{plus,ord} \<Rightarrow> 'v header" where
  "upTo_only lastv by s = Inr (Loop_upTo lastv by s)"

definition down_until :: "'v::{plus,minus} \<Rightarrow> ('v \<Rightarrow> bool) \<Rightarrow> 'v header" where
  "down_until by c s = py_bind (Loop_down by s) (\<lambda>s2. Inr (Loop_until (c (loop_value s2)) s2))"

text \<open>How many values \<open>a, a + by, a + 2*by, \<dots>\<close> do not exceed \<open>last\<close>.\<close>

definition upTo_count :: "int \<Rightarrow> int \<Rightarrow> int \<Rightarrow> nat" where
  "upTo_count a lastv by = nat ((lastv - a) div by + 1)"

text \<open>The abstract loop the class promises: \<open>for (i = a; c(i); i = f(i)) body(i)\<close>.\<close>

fun c_for :: "nat \<Rightarrow> ('v \<Rightarrow> bool) \<Rightarrow> ('v \<Rightarrow> 'v) \<Rightarrow> 'v \<Rightarrow> 'v list option" where
  "c_for 0 c f x = None"
| "c_for (Suc n) c f x = (if c x then map_option (Cons x) (c_for n c f (f x)) else Some [])"

text \<open>Calls of the class's methods, for the states an object can reach.\<close>

datatype 'v loop_call = Start 'v | Next "'v option" | Up 'v | Down 'v | UpTo 'v 'v | DownTo 'v 'v
  | LoopCall bool | Until bool

fun apply_call :: "'v::{plus,minus,ord} loop_call \<Rightarrow> 'v loop_obj \<Rightarrow> 'v loop_obj py_result" where
  "apply_call (Start a) s = Inr (Loop_start a s)"
| "apply_call (Next v) s = Loop_next v s"
| "apply_call (Up b) s = Loop_up b s"
| "apply_call (Down b) s = Loop_down b s"
| "apply_call (UpTo l b) s = Inr (snd (Loop_upTo l b s))"
| "apply_call (DownTo l b) s = Inr (snd (Loop_downTo l b s))"
| "apply_call (LoopCall c) s = Inr (snd (Loop_loop c s))"
| "apply_call (Until c) s = Inr (snd (Loop_until c s))"

inductive loop_reach :: "'v::{plus,minus,ord} loop_obj \<Rightarrow> bool" where
  init: "loop_reach (Loop_init v)"
| call: "loop_reach s \<Longrightarrow> apply_call m s = Inr s' \<Longrightarrow> loop_reach s'"

section \<open>Properties\<close>

lemma apply_call_increment: "apply_call m s = Inr s' \<Longrightarrow> increment s' = increment s"
  by (cases m)
     (auto simp: Loop_start_def Loop_next_def Loop_up_def Loop_down_def Loop_upTo_def
        Loop_downTo_def Loop_loop_def Loop_until_def py_bind_def Let_def
        split: option.splits sum.splits if_splits)

lemma loop_reach_increment: "loop_reach s \<Longrightarrow> increment s = None"
  by (induction rule: loop_reach.induct) (auto simp: Loop_init_def dest: apply_call_increment)

text \<open>C6: \<open>next()\<close> without an argument raises \<open>AttributeError\<close> on every object the
  class can produce: it reads \<open>self._increment\<close>, which neither \<open>__init__\<close> nor any
  method ever creates.  The usage comment's \<open>up\<close>/\<open>down\<close> shortcuts avoid it by passing
  the value explicitly.\<close>

theorem Loop_next_no_increment:
  assumes "loop_reach s"
  shows "Loop_next None s = Inl AttributeError"
  using loop_reach_increment [OF assms] by (simp add: Loop_next_def)

theorem Loop_next_no_increment_witness:
  "loop_reach (Loop_init (0::int)) \<and> Loop_next None (Loop_init (0::int)) = Inl AttributeError"
  using Loop_next_no_increment [OF loop_reach.init [of "0::int"]] by (simp add: loop_reach.init)

text \<open>From a state past its first pass, the start-next-loop chain steps the value by
  \<open>f\<close> and tests \<open>c\<close> on the new value.\<close>

lemma start_next_loop_later:
  "\<not> firstPass s \<Longrightarrow>
   start_next_loop a f c s = Inr (c (f (loop_value s)), s\<lparr>loop_value := f (loop_value s), firstPass := False\<rparr>)"
  by (simp add: start_next_loop_def Loop_start_def Loop_next_def Loop_loop_def)

lemma run_start_next_loop_later:
  "\<not> firstPass s \<Longrightarrow>
   run_while n (start_next_loop a f c) s = map_option (\<lambda>xs. (xs, None)) (c_for n c f (f (loop_value s)))"
proof (induction n arbitrary: s)
  case (Suc n)
  let ?s' = "s\<lparr>loop_value := f (loop_value s), firstPass := False\<rparr>"
  have "run_while n (start_next_loop a f c) ?s' = map_option (\<lambda>xs. (xs, None)) (c_for n c f (f (f (loop_value s))))"
    using Suc.IH [of ?s'] by simp
  with Suc.prems show ?case
    by (simp add: start_next_loop_later option.map_comp o_def)
qed simp

text \<open>C7: The chain \<open>while i.start(a).next(f(i)).loop(c(i))\<close> behaves exactly as the C
  loop \<open>for (i = a; c(i); i = f(i))\<close>: for every amount of fuel the body sees the same
  values, and no exception is raised.\<close>

theorem start_next_loop_refines_c_for:
  "run_while n (start_next_loop a f c) (Loop_init v0) = map_option (\<lambda>xs. (xs, None)) (c_for n c f a)"
proof (cases n)
  case (Suc m)
  let ?s = "\<lparr>firstPass = False, loop_value = a, increment = None\<rparr>"
  have first: "start_next_loop a f c (Loop_init v0) = Inr (c a, ?s)"
    by (simp add: start_next_loop_def Loop_init_def Loop_start_def Loop_next_def Loop_loop_def)
  have "run_while m (start_next_loop a f c) ?s = map_option (\<lambda>xs. (xs, None)) (c_for m c f (f a))"
    using run_start_next_loop_later [of ?s] by simp
  with Suc first show ?thesis by (simp add: option.map_comp o_def)
qed simp

text \<open>\<open>__invert__\<close> returns \<open>-value\<close>, which is never Python's \<open>~value\<close> on
  integers: \<open>~x\<close> is \<open>-x - 1\<close>, so \<open>~i\<close> on a loop over integers is off by one.\<close>

lemma Loop_invert_off_by_one:
  "Loop_invert (s :: int loop_obj) = NOT (loop_value s) + 1 \<and> Loop_invert s \<noteq> NOT (loop_value s)"
  by (simp add: Loop_invert_def not_eq_complement)

lemma upTo_count_step:
  assumes "0 < by" "a \<le> lastv"
  shows "upTo_count a lastv by = Suc (upTo_count (a + by) lastv by)"
proof -
  have q: "0 \<le> (lastv - a) div by" using assms by (simp add: pos_imp_zdiv_nonneg_iff)
  have "(lastv - a) div by = (lastv - (a + by)) div by + 1"
    using div_add_self2 [of "by" "lastv - (a + by)"] assms(1) by simp
  with q show ?thesis by (simp add: upTo_count_def nat_add_distrib)
qed

lemma upTo_count_zero: "0 < by \<Longrightarrow> lastv < a \<Longrightarrow> upTo_count a lastv by = 0"
proof -
  assume "0 < by" "lastv < a"
  then have "(lastv - a) div by < 0" by (simp add: pos_imp_zdiv_neg_iff)
  then show ?thesis by (simp add: upTo_count_def)
qed

lemma progression_Cons:
  "map (\<lambda>k. a + int k * by) [0..<Suc m] = a # map (\<lambda>k. (a + by) + int k * by) [0..<m]"
  by (simp add: upt_conv_Cons map_Suc_upt [symmetric] del: upt_Suc) (simp add: algebra_simps)

lemma run_start_upTo_later:
  assumes "\<not> firstPass s" "0 < by" "upTo_count (loop_value s + by) lastv by < n"
  shows "run_while n (start_upTo a lastv by) s =
           Some (map (\<lambda>k. (loop_value s + by) + int k * by) [0..<upTo_count (loop_value s + by) lastv by], None)"
  using assms
proof (induction n arbitrary: s)
  case (Suc n)
  let ?v = "loop_value s + by"
  let ?s' = "s\<lparr>loop_value := ?v\<rparr>"
  have hdr: "start_upTo a lastv by s = Inr (?v \<le> lastv, ?s')"
    using Suc.prems(1) by (simp add: start_upTo_def Loop_start_def Loop_upTo_def)
  show ?case
  proof (cases "?v \<le> lastv")
    case True
    with Suc.prems have cnt: "upTo_count ?v lastv by = Suc (upTo_count (?v + by) lastv by)"
      by (simp add: upTo_count_step)
    with Suc.prems have "upTo_count (loop_value ?s' + by) lastv by < n" by simp
    with Suc.prems Suc.IH [of ?s'] have
      "run_while n (start_upTo a lastv by) ?s' =
         Some (map (\<lambda>k. (?v + by) + int k * by) [0..<upTo_count (?v + by) lastv by], None)"
      by simp
    with True hdr cnt show ?thesis by (simp only: progression_Cons run_while.simps) simp
  next
    case False
    with hdr Suc.prems(2) show ?thesis by (simp add: upTo_count_zero)
  qed
qed simp

text \<open>C8: \<open>while i.start(a).upTo(last, by)\<close> with a positive step terminates: with
  fuel for one more evaluation of the condition than there are values, the body sees
  exactly \<open>a, a + by, a + 2*by, \<dots>\<close> up to \<open>last\<close>, and nothing is raised.\<close>

theorem start_upTo_terminates:
  assumes "0 < by" "upTo_count a lastv by < n"
  shows "run_while n (start_upTo a lastv by) (Loop_init v0) =
           Some (map (\<lambda>k. a + int k * by) [0..<upTo_count a lastv by], None)"
proof (cases n)
  case (Suc m)
  let ?s = "\<lparr>firstPass = False, loop_value = a, increment = None\<rparr>"
  have first: "start_upTo a lastv by (Loop_init v0) = Inr (a \<le> lastv, ?s)"
    by (simp add: start_upTo_def Loop_init_def Loop_start_def Loop_upTo_def)
  show ?thesis
  proof (cases "a \<le> lastv")
    case True
    with assms have cnt: "upTo_count a lastv by = Suc (upTo_count (a + by) lastv by)"
      by (simp add: upTo_count_step)
    with assms Suc have "upTo_count (loop_value ?s + by) lastv by < m" by simp
    from run_start_upTo_later [of ?s, OF _ assms(1) this] have
      "run_while m (start_upTo a lastv by) ?s =
         Some (map (\<lambda>k. (a + by) + int k * by) [0..<upTo_count (a + by) lastv by], None)"
      by simp
    with True Suc first cnt show ?thesis by (simp only: progression_Cons run_while.simps) simp
  next
    case False
    with Suc first assms(1) show ?thesis by (simp add: upTo_count_zero)
  qed
next
  case 0
  with assms show ?thesis by simp
qed

theorem start_upTo_terminates_witness:
  "0 < (1::int) \<and> upTo_count 1 10 1 < 11 \<and>
   run_while 11 (start_upTo (1::int) 10 1) (Loop_init 0) = Some ([1, 2, 3, 4, 5, 6, 7, 8, 9, 10], None)"
proof -
  have c: "upTo_count 1 10 1 = 10" by (simp add: upTo_count_def)
  have "run_while 11 (start_upTo (1::int) 10 1) (Loop_init 0) = Some (map (\<lambda>k. 1 + int k * 1) [0..<10], None)"
    using start_upTo_terminates [of "1::int" 1 10 11 0] c by simp
  then show ?thesis using c by (simp add: upt_rec)
qed

section \<open>The demos of the module\<close>

text \<open>The \<open>__main__\<close> loops of \<open>Loop.py\<close> print what their comments say:
  \<open>start(100).next(i//2).loop(i>2)\<close> halves 100 down to 3; \<open>next(i/2).until(i<=2)\<close>
  from 100 halves to 3.125 (exact in binary floating point, here rationals);
  \<open>start(1).upTo(10)\<close> gives 1 to 10; \<open>upTo(100,by=5)\<close> from 0 gives 0, 5, \<dots>, 100;
  \<open>down(by=5).until(i<20)\<close> from 100 gives 100, 95, \<dots>, 20.\<close>

lemma Loop_demos:
  "run_while 100 (start_next_loop (100::int) (\<lambda>i. i div 2) (\<lambda>i. 2 < i)) (Loop_init 0) =
     Some ([100, 50, 25, 12, 6, 3], None) \<and>
   run_while 100 (next_until (\<lambda>i. i / 2) (\<lambda>i. i \<le> (2::rat))) (Loop_init 100) =
     Some ([100, 50, 25, 25 / 2, 25 / 4, 25 / 8], None) \<and>
   run_while 100 (start_upTo (1::int) 10 1) (Loop_init 0) = Some ([1..10], None) \<and>
   run_while 100 (upTo_only (100::int) 5) (Loop_init 0) = Some (map (\<lambda>k. 5 * int k) [0..<21], None) \<and>
   run_while 100 (down_until (5::int) (\<lambda>i. i < 20)) (Loop_init 100) =
     Some (map (\<lambda>k. 100 - 5 * int k) [0..<17], None)"
  by code_simp

lemma next_until_later:
  "\<not> firstPass s \<Longrightarrow>
   next_until f c s = Inr (\<not> c (f (loop_value s)), s\<lparr>loop_value := f (loop_value s), firstPass := False\<rparr>)"
  by (simp add: next_until_def Loop_next_def Loop_until_def)

lemma run_next_until_later:
  "\<not> firstPass s \<Longrightarrow>
   run_while n (next_until f c) s = map_option (\<lambda>xs. (xs, None)) (c_for n (\<lambda>v. \<not> c v) f (f (loop_value s)))"
proof (induction n arbitrary: s)
  case (Suc n)
  let ?s' = "s\<lparr>loop_value := f (loop_value s), firstPass := False\<rparr>"
  have "run_while n (next_until f c) ?s' = map_option (\<lambda>xs. (xs, None)) (c_for n (\<lambda>v. \<not> c v) f (f (f (loop_value s))))"
    using Suc.IH [of ?s'] by simp
  with Suc.prems show ?case
    by (simp add: next_until_later option.map_comp o_def)
qed simp

text \<open>\<open>while i.next(f(i)).until(c(i))\<close> is the C loop \<open>for (i = a; !c(i); i = f(i))\<close>:
  the first pass of \<open>next\<close> keeps the start value.\<close>

lemma next_until_refines_c_for:
  "run_while n (next_until f c) (Loop_init a) = map_option (\<lambda>xs. (xs, None)) (c_for n (\<lambda>v. \<not> c v) f a)"
proof (cases n)
  case (Suc m)
  let ?s = "\<lparr>firstPass = False, loop_value = a, increment = None\<rparr>"
  have first: "next_until f c (Loop_init a) = Inr (\<not> c a, ?s)"
    by (simp add: next_until_def Loop_init_def Loop_next_def Loop_until_def)
  have "run_while m (next_until f c) ?s = map_option (\<lambda>xs. (xs, None)) (c_for m (\<lambda>v. \<not> c v) f (f a))"
    using run_next_until_later [of ?s] by simp
  with Suc first show ?thesis by (simp add: option.map_comp o_def)
qed simp

lemma c_for_exit:
  assumes "\<not> c' ((f ^^ k) x)" "\<forall>j<k. c' ((f ^^ j) x)"
  shows "c_for (Suc k) c' f x = Some (map (\<lambda>j. (f ^^ j) x) [0..<k])"
  using assms
proof (induction k arbitrary: x)
  case (Suc k)
  have shift: "(f ^^ j) (f x) = (f ^^ Suc j) x" for j by (simp add: funpow_Suc_right del: funpow.simps)
  have p1: "\<not> c' ((f ^^ k) (f x))" unfolding shift using Suc.prems(1) .
  have p2: "\<forall>j<k. c' ((f ^^ j) (f x))"
  proof (intro allI impI)
    fix j assume "j < k"
    with Suc.prems(2) have "c' ((f ^^ Suc j) x)" by blast
    then show "c' ((f ^^ j) (f x))" by (simp only: shift)
  qed
  have "c_for (Suc k) c' f (f x) = Some (map (\<lambda>j. (f ^^ j) (f x)) [0..<k])"
    using p1 p2 by (rule Suc.IH)
  moreover have "c' x" using Suc.prems(2) by (metis funpow_0 zero_less_Suc)
  ultimately show ?case
    by (simp add: map_upt_Suc funpow_Suc_right del: funpow.simps upt_Suc)
qed simp

text \<open>C14: A \<open>next(f(i)).until(c(i))\<close> loop exits once the condition holds: if
  \<open>c\<close> first holds after \<open>k\<close> applications of \<open>f\<close>, the loop stops after \<open>k + 1\<close> tests,
  the body having seen \<open>a, f(a), \<dots>, f\<^sup>k\<^sup>-\<^sup>1(a)\<close>.\<close>

theorem next_until_exits:
  assumes "c ((f ^^ k) a)" "\<forall>j<k. \<not> c ((f ^^ j) a)"
  shows "run_while (Suc k) (next_until f c) (Loop_init a) = Some (map (\<lambda>j. (f ^^ j) a) [0..<k], None)"
  using c_for_exit [where c' = "\<lambda>v. \<not> c v" and f = f and k = k and x = a] assms
  by (simp add: next_until_refines_c_for)

theorem next_until_exits_witness:
  "run_while 4 (next_until (\<lambda>i. i div 2) (\<lambda>i. i \<le> (2::int))) (Loop_init 20) = Some ([20, 10, 5], None)"
proof -
  have h: "run_while (Suc 3) (next_until (\<lambda>i. i div 2) (\<lambda>i. i \<le> (2::int))) (Loop_init 20) =
          Some (map (\<lambda>j. ((\<lambda>i. i div 2) ^^ j) 20) [0..<3], None)"
    by (rule next_until_exits) (auto simp: less_Suc_eq numeral_3_eq_3)
  have m: "map (\<lambda>j. ((\<lambda>i. i div 2) ^^ j) (20::int)) [0..<3] = [20, 10, 5]"
    by (simp add: numeral_3_eq_3)
  have four: "Suc 3 = (4::nat)" by simp
  show ?thesis using h [unfolded four m] .
qed

text \<open>C15: On every object a program can build, the only call that raises is
  \<open>next()\<close> without an argument; \<open>start\<close>, \<open>next(v)\<close>, \<open>up\<close>, \<open>down\<close>, \<open>upTo\<close>,
  \<open>downTo\<close>, \<open>loop\<close> and \<open>until\<close> always return.\<close>

theorem Loop_calls_safe:
  assumes "loop_reach s"
  shows "isl (apply_call m s) \<longleftrightarrow> m = Next None"
  using loop_reach_increment [OF assms]
  by (cases m)
     (auto simp: Loop_start_def Loop_next_def Loop_up_def Loop_down_def Loop_upTo_def Loop_downTo_def
        Loop_loop_def Loop_until_def py_bind_def Let_def split: option.splits)

theorem Loop_calls_safe_witness:
  "isl (apply_call (Next None) (Loop_init (0::int))) \<and> \<not> isl (apply_call (Up 1) (Loop_init (0::int)))"
  using Loop_calls_safe [OF loop_reach.init [of "0::int"], of "Next None"]
        Loop_calls_safe [OF loop_reach.init [of "0::int"], of "Up 1"]
  by simp

text \<open>C20: The short forms the usage comment lists (lines 31--36) are what the code does,
  on every object: \<open>upTo(last, by)\<close> is \<open>next(i + by).loop(i <= last)\<close>,
  \<open>downTo(last, by)\<close> is \<open>next(i - by).loop(i >= last)\<close>, and \<open>until(c)\<close> is
  \<open>loop(not c)\<close>.\<close>

theorem Loop_short_forms:
  "Inr (Loop_upTo lastv by s) =
     py_bind (Loop_next (Some (loop_value s + by)) s) (\<lambda>s2. Inr (Loop_loop (loop_value s2 \<le> lastv) s2)) \<and>
   Inr (Loop_downTo lastv' by' s') =
     py_bind (Loop_next (Some (loop_value s' - by')) s') (\<lambda>s2. Inr (Loop_loop (loop_value s2 \<ge> lastv') s2)) \<and>
   Loop_until c s'' = Loop_loop (\<not> c) s''"
  by (simp add: Loop_upTo_def Loop_downTo_def Loop_next_def Loop_loop_def Loop_until_def Let_def)

end
