(* ===== verification/PyNumbers.thy ===== *)
theory PyNumbers
  imports PyPrelude
begin

text \<open>
  Python's conversions between \<open>int\<close> and \<open>str\<close> in base 10, as CPython implements them:
  \<open>str(i)\<close> writes a minus sign for negative values and the decimal digits with no
  leading zero; \<open>int(s)\<close> strips surrounding whitespace, accepts one optional sign and
  digits in groups separated by single underscores (leading zeros allowed), and raises
  \<open>ValueError\<close> on anything else.  Only ASCII digits and whitespace are modelled.
\<close>

section \<open>Digits\<close>

definition is_digit :: "char \<Rightarrow> bool" where
  "is_digit c \<longleftrightarrow> of_char CHR ''0'' \<le> (of_char c :: nat) \<and> (of_char c :: nat) \<le> of_char CHR ''9''"

definition digit_val :: "char \<Rightarrow> nat" where
  "digit_val c = of_char c - of_char CHR ''0''"

definition digit_char :: "nat \<Rightarrow> char" where
  "digit_char d = char_of (of_char CHR ''0'' + d)"

definition is_space :: "char \<Rightarrow> bool" where
  "is_space c \<longleftrightarrow> c \<in> set '' \<newline>'' \<or> c = CHR 0x09 \<or> c = CHR 0x0B \<or> c = CHR 0x0C \<or> c = CHR 0x0D"

section \<open>\<open>str(i)\<close>\<close>

fun nat_digits :: "nat \<Rightarrow> string" where
  "nat_digits n = (if n < 10 then [digit_char n] else nat_digits (n div 10) @ [digit_char (n mod 10)])"

declare nat_digits.simps [simp del]

definition py_str_int :: "int \<Rightarrow> string" where
  "py_str_int i = (if i < 0 then CHR ''-'' # nat_digits (nat (- i)) else nat_digits (nat i))"

section \<open>\<open>int(s)\<close>\<close>

definition py_strip :: "string \<Rightarrow> string" where
  "py_strip s = rev (dropWhile is_space (rev (dropWhile is_space s)))"

fun no_double_underscore :: "string \<Rightarrow> bool" where
  "no_double_underscore (a # b # r) = (\<not> (a = CHR ''_'' \<and> b = CHR ''_'') \<and> no_double_underscore (b # r))"
| "no_double_underscore _ = True"

definition valid_digits :: "string \<Rightarrow> bool" where
  "valid_digits ds \<longleftrightarrow> ds \<noteq> [] \<and> list_all (\<lambda>c. is_digit c \<or> c = CHR ''_'') ds \<and>
     hd ds \<noteq> CHR ''_'' \<and> last ds \<noteq> CHR ''_'' \<and> no_double_underscore ds"

definition dec_val :: "string \<Rightarrow> int" where
  "dec_val ds = foldl (\<lambda>acc c. 10 * acc + int (digit_val c)) 0 (filter (\<lambda>c. c \<noteq> CHR ''_'') ds)"

definition py_digits :: "string \<Rightarrow> int py_result" where
  "py_digits ds = (if valid_digits ds then Inr (dec_val ds) else Inl ValueError)"

definition py_int_str :: "string \<Rightarrow> int py_result" where
  "py_int_str s =
     (case py_strip s of
        [] \<Rightarrow> Inl ValueError
      | c # r \<Rightarrow> (if c = CHR ''-'' then map_sum id uminus (py_digits r)
                 else if c = CHR ''+'' then py_digits r
                 else py_digits (c # r)))"

section \<open>Round trip\<close>

lemma of_char_digit_char: "d < 10 \<Longrightarrow> of_char (digit_char d) = 48 + d"
  by (simp add: digit_char_def take_bit_nat_eq_self)

lemma digit_char_props [simp]:
  assumes "d < 10"
  shows "is_digit (digit_char d)" "digit_val (digit_char d) = d"
  using of_char_digit_char [OF assms] assms by (simp_all add: is_digit_def digit_val_def)

lemma digit_not_special:
  assumes "is_digit c"
  shows "c \<noteq> CHR ''_''" "\<not> is_space c" "c \<noteq> CHR ''-''" "c \<noteq> CHR ''+''"
  using assms by (auto simp: is_digit_def is_space_def)

lemma nat_digits_digits: "list_all is_digit (nat_digits n)"
  by (induction n rule: nat_digits.induct) (subst nat_digits.simps, simp)

lemma nat_digits_ne: "nat_digits n \<noteq> []"
  by (subst nat_digits.simps) simp

lemma dec_val_snoc:
  "\<not> c = CHR ''_'' \<Longrightarrow> dec_val (ds @ [c]) = 10 * dec_val ds + int (digit_val c)"
  by (simp add: dec_val_def)

lemma dec_val_nat_digits: "dec_val (nat_digits n) = int n"
proof (induction n rule: nat_digits.induct)
  case (1 n)
  show ?case
  proof (cases "n < 10")
    case True
    then show ?thesis by (subst nat_digits.simps) (simp add: dec_val_def digit_not_special)
  next
    case False
    then have "dec_val (nat_digits n) = 10 * int (n div 10) + int (n mod 10)"
      using 1 by (subst nat_digits.simps) (simp add: dec_val_snoc digit_not_special)
    also have "\<dots> = int n"
      by (metis div_mult_mod_eq mult.commute of_nat_add of_nat_mult of_nat_numeral)
    finally show ?thesis .
  qed
qed

lemma no_double_underscore_free:
  "list_all (\<lambda>c. c \<noteq> CHR ''_'') ds \<Longrightarrow> no_double_underscore ds"
  by (induction ds rule: no_double_underscore.induct) simp_all

lemma valid_nat_digits: "valid_digits (nat_digits n)"
proof -
  have d: "list_all is_digit (nat_digits n)" by (rule nat_digits_digits)
  then have "list_all (\<lambda>c. c \<noteq> CHR ''_'') (nat_digits n)"
    by (auto simp: list_all_iff digit_not_special)
  moreover have "hd (nat_digits n) \<in> set (nat_digits n)" "last (nat_digits n) \<in> set (nat_digits n)"
    using nat_digits_ne by simp_all
  ultimately show ?thesis
    using d nat_digits_ne
    by (auto simp: valid_digits_def list_all_iff no_double_underscore_free digit_not_special)
qed

lemma py_strip_id:
  assumes "s \<noteq> []" "\<not> is_space (hd s)" "\<not> is_space (last s)"
  shows "py_strip s = s"
proof -
  have "dropWhile is_space s = s" using assms(1,2) by (cases s) simp_all
  moreover have "dropWhile is_space (rev s) = rev s" using assms(1,3) by (cases "rev s") (simp_all add: last_rev [symmetric])
  ultimately show ?thesis by (simp add: py_strip_def)
qed

lemma nat_digits_hd_last: "is_digit (hd (nat_digits n)) \<and> is_digit (last (nat_digits n))"
  using nat_digits_digits [of n] nat_digits_ne [of n] by (simp add: list_all_iff)

lemma py_digits_nat_digits: "py_digits (nat_digits n) = Inr (int n)"
  by (simp add: py_digits_def valid_nat_digits dec_val_nat_digits)

lemma py_int_str_py_str_int: "py_int_str (py_str_int i) = Inr i"
proof -
  obtain c r where cr: "nat_digits (nat \<bar>i\<bar>) = c # r" using nat_digits_ne by (cases "nat_digits (nat \<bar>i\<bar>)") auto
  have c: "is_digit c" and l: "is_digit (last (c # r))"
    using nat_digits_hd_last [of "nat \<bar>i\<bar>"] cr by simp_all
  show ?thesis
  proof (cases "i < 0")
    case True
    then have s: "py_str_int i = CHR ''-'' # c # r" using cr by (simp add: py_str_int_def)
    have "py_strip (CHR ''-'' # c # r) = CHR ''-'' # c # r"
    proof (rule py_strip_id)
      show "\<not> is_space (hd (CHR ''-'' # c # r))" by (simp add: is_space_def)
    qed (use l in \<open>simp_all add: digit_not_special\<close>)
    with True s cr show ?thesis
      using py_digits_nat_digits [of "nat \<bar>i\<bar>"] by (simp add: py_int_str_def)
  next
    case False
    then have s: "py_str_int i = c # r" using cr by (simp add: py_str_int_def)
    have "py_strip (c # r) = c # r"
      using c l by (intro py_strip_id) (simp_all add: digit_not_special)
    with False s cr c show ?thesis
      using py_digits_nat_digits [of "nat \<bar>i\<bar>"] by (simp add: py_int_str_def digit_not_special)
  qed
qed

section \<open>Integer operators and sequence indexing\<close>

text \<open>\<open>a // b\<close>, \<open>a % b\<close> and \<open>divmod(a, b)\<close> on ints round towards minus infinity, as
  \<open>div\<close> and \<open>mod\<close> on \<open>int\<close> do; a zero divisor raises \<open>ZeroDivisionError\<close>.
  \<open>a << n\<close> and \<open>a >> n\<close> raise \<open>ValueError\<close> for a negative count; \<open>>>\<close> is an
  arithmetic shift (floor division by \<open>2 ^ n\<close>).\<close>

definition py_floordiv :: "int \<Rightarrow> int \<Rightarrow> int py_result" where
  "py_floordiv a b = (if b = 0 then Inl ZeroDivisionError else Inr (a div b))"

definition py_mod :: "int \<Rightarrow> int \<Rightarrow> int py_result" where
  "py_mod a b = (if b = 0 then Inl ZeroDivisionError else Inr (a mod b))"

definition py_divmod :: "int \<Rightarrow> int \<Rightarrow> (int \<times> int) py_result" where
  "py_divmod a b = (if b = 0 then Inl ZeroDivisionError else Inr (a div b, a mod b))"

definition py_lshift :: "int \<Rightarrow> int \<Rightarrow> int py_result" where
  "py_lshift a n = (if n < 0 then Inl ValueError else Inr (push_bit (nat n) a))"

definition py_rshift :: "int \<Rightarrow> int \<Rightarrow> int py_result" where
  "py_rshift a n = (if n < 0 then Inl ValueError else Inr (drop_bit (nat n) a))"

text \<open>\<open>t[k]\<close> on a tuple: a negative index counts from the end; out of range raises
  \<open>IndexError\<close>.\<close>

definition py_getitem :: "'a list \<Rightarrow> int \<Rightarrow> 'a py_result" where
  "py_getitem xs k =
     (let n = int (length xs); k' = (if k < 0 then k + n else k)
      in if 0 \<le> k' \<and> k' < n then Inr (xs ! nat k') else Inl IndexError)"

text \<open>\<open>sum(xs)\<close> with its default start 0.\<close>

definition py_sum :: "int list \<Rightarrow> int" where
  "py_sum xs = foldl (+) 0 xs"

lemma py_getitem_mod:
  "py_getitem xs k =
     (if - int (length xs) \<le> k \<and> k < int (length xs) then Inr (xs ! nat (k mod int (length xs)))
      else Inl IndexError)"
proof (cases "k < 0")
  case True
  show ?thesis
  proof (cases "- int (length xs) \<le> k")
    case in_range: True
    have "k mod int (length xs) = (k + int (length xs)) mod int (length xs)" by simp
    also have "\<dots> = k + int (length xs)" using True in_range by (intro mod_pos_pos_trivial) simp_all
    finally show ?thesis using True in_range by (simp add: py_getitem_def Let_def)
  next
    case False
    with True show ?thesis by (simp add: py_getitem_def Let_def)
  qed
next
  case False
  then show ?thesis by (auto simp: py_getitem_def Let_def)
qed

lemma py_sum_sum_list: "py_sum xs = sum_list xs"
proof -
  have "foldl (+) a xs = a + sum_list xs" for a :: int
    by (induction xs arbitrary: a) (simp_all add: add.assoc)
  then show ?thesis by (simp add: py_sum_def)
qed

end
