(* ===== verification/LoopOps.thy ===== *)
theory LoopOps
  imports Loop PyNumbers
begin

unbundle bit_operations_syntax

text \<open>
  The operators of \<open>src/Loop.py\<close> (lines 79--120): each forwards to the loop's value,
  so that \<open>i\<close> can stand for \<open>i.value\<close> in expressions.  The arithmetic ones are
  generic over the value type where Python's operator is the HOL operator of a type
  class (\<open>+\<close>, \<open>-\<close>, \<open>*\<close>, comparisons, \<open>abs\<close>, \<open>**\<close> with a natural exponent, \<open>/\<close> on a
  field); those whose Python meaning is specific to \<open>int\<close> (\<open>//\<close>, \<open>%\<close>, \<open>divmod\<close>,
  shifts, bitwise operators, \<open>@\<close>, \<open>str\<close>) are stated for an \<open>int\<close> value, with their
  exceptions.  \<open>__getitem__\<close> is stated for a tuple value.  Python's iteration protocol
  falls back on \<open>__getitem__\<close> for a class with no \<open>__iter__\<close>, so \<open>sum(f)\<close> on a
  loop over tuples reads \<open>f[0]\<close>, \<open>f[1]\<close>, \<dots> until \<open>IndexError\<close>: that is
  \<open>loop_iter\<close>, used by the sixth demo of the module.
\<close>

section \<open>Tuples\<close>

text \<open>Python's \<open>+\<close> on tuples is concatenation.\<close>

instantiation list :: (type) plus
begin

definition plus_list :: "'a list \<Rightarrow> 'a list \<Rightarrow> 'a list" where
  "plus_list xs ys = xs @ ys"

instance ..

end

section \<open>Indexing, conversions\<close>

text \<open>The property \<open>value\<close> (lines 43--44) that the operators read.\<close>

definition Loop_value :: "'v loop_obj \<Rightarrow> 'v" where
  "Loop_value s = loop_value s"

definition Loop_getitem :: "'a list loop_obj \<Rightarrow> int \<Rightarrow> 'a py_result" where
  "Loop_getitem s index = py_getitem (loop_value s) index"

definition Loop_str :: "int loop_obj \<Rightarrow> string" where
  "Loop_str s = py_str_int (loop_value s)"

definition Loop_int :: "string loop_obj \<Rightarrow> int py_result" where
  "Loop_int s = py_int_str (loop_value s)"

section \<open>Binary operators\<close>

definition Loop_add :: "'v::plus loop_obj \<Rightarrow> 'v \<Rightarrow> 'v" where
  "Loop_add s other = loop_value s + other"

definition Loop_sub :: "'v::minus loop_obj \<Rightarrow> 'v \<Rightarrow> 'v" where
  "Loop_sub s other = loop_value s - other"

definition Loop_mul :: "'v::times loop_obj \<Rightarrow> 'v \<Rightarrow> 'v" where
  "Loop_mul s other = loop_value s * other"

text \<open>\<open>self.value.__matmul__(other)\<close>: \<open>int\<close> has no \<open>__matmul__\<close>.\<close>

definition Loop_matmul :: "int loop_obj \<Rightarrow> 'b \<Rightarrow> 'c py_result" where
  "Loop_matmul s other = Inl AttributeError"

definition Loop_divmod :: "int loop_obj \<Rightarrow> int \<Rightarrow> (int \<times> int) py_result" where
  "Loop_divmod s other = py_divmod (loop_value s) other"

definition Loop_pow :: "'v::power loop_obj \<Rightarrow> nat \<Rightarrow> 'v" where
  "Loop_pow s other = loop_value s ^ other"

definition Loop_truediv :: "'v::field loop_obj \<Rightarrow> 'v \<Rightarrow> 'v py_result" where
  "Loop_truediv s other = (if other = 0 then Inl ZeroDivisionError else Inr (loop_value s / other))"

definition Loop_floordiv :: "int loop_obj \<Rightarrow> int \<Rightarrow> int py_result" where
  "Loop_floordiv s other = py_floordiv (loop_value s) other"

definition Loop_mod :: "int loop_obj \<Rightarrow> int \<Rightarrow> int py_result" where
  "Loop_mod s other = py_mod (loop_value s) other"

definition Loop_lshift :: "int loop_obj \<Rightarrow> int \<Rightarrow> int py_result" where
  "Loop_lshift s other = py_lshift (loop_value s) other"

definition Loop_rshift :: "int loop_obj \<Rightarrow> int \<Rightarrow> int py_result" where
  "Loop_rshift s other = py_rshift (loop_value s) other"

definition Loop_lt :: "'v::ord loop_obj \<Rightarrow> 'v \<Rightarrow> bool" where
  "Loop_lt s other = (loop_value s < other)"

definition Loop_le :: "'v::ord loop_obj \<Rightarrow> 'v \<Rightarrow> bool" where
  "Loop_le s other = (loop_value s \<le> other)"

definition Loop_eq :: "'v loop_obj \<Rightarrow> 'v \<Rightarrow> bool" where
  "Loop_eq s other = (loop_value s = other)"

definition Loop_ne :: "'v loop_obj \<Rightarrow> 'v \<Rightarrow> bool" where
  "Loop_ne s other = (loop_value s \<noteq> other)"

definition Loop_gt :: "'v::ord loop_obj \<Rightarrow> 'v \<Rightarrow> bool" where
  "Loop_gt s other = (loop_value s > other)"

definition Loop_ge :: "'v::ord loop_obj \<Rightarrow> 'v \<Rightarrow> bool" where
  "Loop_ge s other = (loop_value s \<ge> other)"

definition Loop_and :: "int loop_obj \<Rightarrow> int \<Rightarrow> int" where
  "Loop_and s other = loop_value s AND other"

definition Loop_or :: "int loop_obj \<Rightarrow> int \<Rightarrow> int" where
  "Loop_or s other = loop_value s OR other"

definition Loop_xor :: "int loop_obj \<Rightarrow> int \<Rightarrow> int" where
  "Loop_xor s other = loop_value s XOR other"

section \<open>Unary operators\<close>

definition Loop_pos :: "'v loop_obj \<Rightarrow> 'v" where
  "Loop_pos s = loop_value s"

definition Loop_abs :: "'v::abs loop_obj \<Rightarrow> 'v" where
  "Loop_abs s = \<bar>loop_value s\<bar>"

section \<open>Reflected operators\<close>

definition Loop_radd :: "'v::plus loop_obj \<Rightarrow> 'v \<Rightarrow> 'v" where
  "Loop_radd s other = other + loop_value s"

definition Loop_rsub :: "'v::minus loop_obj \<Rightarrow> 'v \<Rightarrow> 'v" where
  "Loop_rsub s other = other - loop_value s"

definition Loop_rmul :: "'v::times loop_obj \<Rightarrow> 'v \<Rightarrow> 'v" where
  "Loop_rmul s other = other * loop_value s"

text \<open>\<open>other.__matmul__(self.value)\<close> with an \<open>int\<close> on the left.\<close>

definition Loop_rmatmul :: "'v loop_obj \<Rightarrow> int \<Rightarrow> 'c py_result" where
  "Loop_rmatmul s other = Inl AttributeError"

definition Loop_rtruediv :: "'v::field loop_obj \<Rightarrow> 'v \<Rightarrow> 'v py_result" where
  "Loop_rtruediv s other = (if loop_value s = 0 then Inl ZeroDivisionError else Inr (other / loop_value s))"

definition Loop_rfloordiv :: "int loop_obj \<Rightarrow> int \<Rightarrow> int py_result" where
  "Loop_rfloordiv s other = py_floordiv other (loop_value s)"

definition Loop_rmod :: "int loop_obj \<Rightarrow> int \<Rightarrow> int py_result" where
  "Loop_rmod s other = py_mod other (loop_value s)"

definition Loop_rdivmod :: "int loop_obj \<Rightarrow> int \<Rightarrow> (int \<times> int) py_result" where
  "Loop_rdivmod s other = py_divmod other (loop_value s)"

definition Loop_rpow :: "nat loop_obj \<Rightarrow> 'v::power \<Rightarrow> 'v" where
  "Loop_rpow s other = other ^ loop_value s"

definition Loop_rlshift :: "int loop_obj \<Rightarrow> int \<Rightarrow> int py_result" where
  "Loop_rlshift s other = py_lshift other (loop_value s)"

definition Loop_rrshift :: "int loop_obj \<Rightarrow> int \<Rightarrow> int py_result" where
  "Loop_rrshift s other = py_rshift other (loop_value s)"

definition Loop_rand :: "int loop_obj \<Rightarrow> int \<Rightarrow> int" where
  "Loop_rand s other = other AND loop_value s"

definition Loop_rxor :: "int loop_obj \<Rightarrow> int \<Rightarrow> int" where
  "Loop_rxor s other = other XOR loop_value s"

definition Loop_ror :: "int loop_obj \<Rightarrow> int \<Rightarrow> int" where
  "Loop_ror s other = other OR loop_value s"

section \<open>Iteration through \<open>__getitem__\<close>\<close>

text \<open>\<open>iter(f)\<close> for a class with \<open>__getitem__\<close> and no \<open>__iter__\<close>: indices 0, 1, 2,
  \<dots> until \<open>IndexError\<close>, which ends the iteration; any other exception propagates.\<close>

function loop_iter :: "'a list loop_obj \<Rightarrow> int \<Rightarrow> 'a list py_result" where
  "loop_iter s k =
     (case Loop_getitem s k of
        Inl e \<Rightarrow> (if e = IndexError then Inr [] else Inl e)
      | Inr x \<Rightarrow> map_sum id (Cons x) (loop_iter s (k + 1)))"
  by pat_completeness auto
termination
  by (relation "measure (\<lambda>(s, k). nat (int (length (loop_value s)) - k))")
     (auto simp: Loop_getitem_def py_getitem_mod split: if_splits)

declare loop_iter.simps [simp del]

section \<open>The sixth demo: Fibonacci pairs\<close>

text \<open>\<open>while f.next((f[1], sum(f))).until(f[0] > 100)\<close>, the arguments evaluated left
  to right.\<close>

definition fib_header :: "int list header" where
  "fib_header s =
     py_bind (Loop_getitem s 1) (\<lambda>a.
     py_bind (map_sum id py_sum (loop_iter s 0)) (\<lambda>b.
     py_bind (Loop_next (Some [a, b]) s) (\<lambda>s2.
     py_bind (Loop_getitem s2 0) (\<lambda>x.
     Inr (Loop_until (100 < x) s2)))))"

section \<open>The usage comment\<close>

text \<open>Lines 7--9: \<open>i = Loop()\<close>, then \<open>while i.start(3).next(i**2).stop(10000)\<close>.  The
  chain is evaluated left to right: \<open>start\<close>, then \<open>i**2\<close> through \<open>__pow__\<close> on the
  object \<open>start\<close> returned, then \<open>next\<close>; looking up \<open>stop\<close> on the result raises
  \<open>AttributeError\<close>, since the class defines no such attribute, before \<open>10000\<close> is
  evaluated.\<close>

definition usage_header :: "int header" where
  "usage_header s =
     (let s1 = Loop_start 3 s
      in py_bind (Loop_next (Some (Loop_pow s1 2)) s1) (\<lambda>s2. Inl AttributeError))"

definition usage_example :: "(int list \<times> py_error option) option" where
  "usage_example = run_while 5 usage_header (Loop_init 0)"

section \<open>Properties\<close>

lemma Loop_getitem_nat:
  "k < length (loop_value s) \<Longrightarrow> Loop_getitem s (int k) = Inr (loop_value s ! k)"
  by (simp add: Loop_getitem_def py_getitem_def)

lemma Loop_getitem_end: "Loop_getitem s (int (length (loop_value s))) = Inl IndexError"
  by (simp add: Loop_getitem_def py_getitem_def)

lemma loop_iter_drop:
  "k \<le> length (loop_value s) \<Longrightarrow> loop_iter s (int k) = Inr (drop k (loop_value s))"
proof (induction "length (loop_value s) - k" arbitrary: k)
  case 0
  then have "k = length (loop_value s)" by simp
  then show ?case by (subst loop_iter.simps) (simp add: Loop_getitem_end)
next
  case (Suc m)
  then have k: "k < length (loop_value s)" by simp
  with Suc.hyps(2) Suc.hyps(1) [of "Suc k"] have "loop_iter s (int k + 1) = Inr (drop (Suc k) (loop_value s))"
    by (simp add: add.commute)
  with k show ?case by (subst loop_iter.simps) (simp add: Loop_getitem_nat Cons_nth_drop_Suc)
qed

text \<open>A loop whose value is a tuple is iterable through \<open>__getitem__\<close>: the
  iteration ends (at the index equal to the length, which raises \<open>IndexError\<close>) and
  yields exactly the tuple's elements, so \<open>list(f) == list(f.value)\<close> and
  \<open>sum(f) == sum(f.value)\<close>.\<close>

lemma loop_iter_value:
  "loop_iter s 0 = Inr (loop_value s) \<and> map_sum id py_sum (loop_iter s 0) = Inr (sum_list (loop_value s))"
  using loop_iter_drop [of 0 s] by (simp add: py_sum_sum_list)

text \<open>The sixth demo prints the Fibonacci numbers up to 100 (the first components of
  the pairs it goes through): \<open>sum(f)\<close> iterates the pair through \<open>__getitem__\<close>.\<close>

lemma fib_demo:
  "run_while 100 fib_header (Loop_init [1, 1]) =
     Some ([[1, 1], [1, 2], [2, 3], [3, 5], [5, 8], [8, 13], [13, 21], [21, 34], [34, 55], [55, 89], [89, 144]], None) \<and>
   map hd [[1, 1], [1, 2], [2, 3], [3, 5], [5, 8], [8, 13], [13, 21], [21, 34], [34, 55], [55, 89], [89, 144::int]] =
     [1, 1, 2, 3, 5, 8, 13, 21, 34, 55, 89]"
  by code_simp

text \<open>\<open>str\<close> and \<open>int\<close> on loops are inverse: for an int-valued loop \<open>i\<close>,
  \<open>int(Loop(str(i)))\<close> is \<open>i.value\<close>, whatever its sign.\<close>

lemma Loop_str_int_roundtrip: "Loop_int (Loop_init (Loop_str s)) = Inr (loop_value s)"
  by (simp add: Loop_int_def Loop_str_def Loop_init_def py_int_str_py_str_int)

text \<open>For a non-zero divisor \<open>divmod(i, d)\<close> returns \<open>(q, r)\<close> with
  \<open>q * d + r = i.value\<close> and the remainder between 0 and the divisor, on the divisor's side
  (Python's floor division); a zero divisor raises \<open>ZeroDivisionError\<close>.\<close>

lemma Loop_divmod_bounds:
  assumes "d \<noteq> 0"
  shows "\<exists>q r. Loop_divmod s d = Inr (q, r) \<and> q * d + r = loop_value s \<and>
           (0 < d \<longrightarrow> 0 \<le> r \<and> r < d) \<and> (d < 0 \<longrightarrow> d < r \<and> r \<le> 0)"
  using assms by (simp add: Loop_divmod_def py_divmod_def)

text \<open>\<open>divmod\<close> agrees with \<open>//\<close> and \<open>%\<close>, on the loop's side and reflected,
  errors included: \<open>divmod(i, d) == (i // d, i % d)\<close> and
  \<open>divmod(d, i) == (d // i, d % i)\<close>.\<close>

lemma Loop_divmod_floordiv_mod:
  "Loop_divmod s d = py_bind (Loop_floordiv s d) (\<lambda>q. py_bind (Loop_mod s d) (\<lambda>r. Inr (q, r))) \<and>
   Loop_rdivmod s d = py_bind (Loop_rfloordiv s d) (\<lambda>q. py_bind (Loop_rmod s d) (\<lambda>r. Inr (q, r)))"
  by (simp add: Loop_divmod_def Loop_floordiv_def Loop_mod_def Loop_rdivmod_def Loop_rfloordiv_def
                Loop_rmod_def py_divmod_def py_floordiv_def py_mod_def)

text \<open>Shifting a loop left by a non-negative count and the result back right
  gives the value back (ints do not overflow); a negative count raises \<open>ValueError\<close>
  both ways.\<close>

lemma Loop_shift_roundtrip:
  assumes "0 \<le> n"
  shows "py_bind (Loop_lshift s n) (\<lambda>v. Loop_rshift (Loop_init v) n) = Inr (loop_value s)"
  using assms by (simp add: Loop_lshift_def Loop_rshift_def py_lshift_def py_rshift_def Loop_init_def
                            drop_bit_push_bit_int)

text \<open>\<open>f[k]\<close> on a tuple-valued loop succeeds exactly for
  \<open>-len \<le> k < len\<close>, reading element \<open>k mod len\<close> (negative indices count from the end),
  and raises \<open>IndexError\<close> otherwise.\<close>

lemma Loop_getitem_range:
  "Loop_getitem s k =
     (if - int (length (loop_value s)) \<le> k \<and> k < int (length (loop_value s))
      then Inr (loop_value s ! nat (k mod int (length (loop_value s)))) else Inl IndexError)"
  by (simp add: Loop_getitem_def py_getitem_mod)

text \<open>The loop of the usage comment raises \<open>AttributeError\<close> on its first condition,
  whatever the fuel and the start value, so it prints nothing; the output the comment
  shows (lines 11--14) is what the chain prints with \<open>.loop(i <= 10000)\<close> in place of
  \<open>.stop(10000)\<close>.\<close>

lemma usage_comment_raises:
  "run_while (Suc n) usage_header (Loop_init v) = Some ([], Some AttributeError) \<and>
   usage_example = Some ([], Some AttributeError)"
  by (simp add: usage_example_def usage_header_def Loop_init_def Loop_start_def Loop_next_def
      numeral_eq_Suc)

lemma usage_comment_output:
  "run_while 5 (start_next_loop 3 (\<lambda>v. v ^ 2) (\<lambda>v. v \<le> 10000)) (Loop_init (0::int)) =
     Some ([3, 9, 81, 6561], None)"
  by (simp add: start_next_loop_def Loop_init_def Loop_start_def Loop_next_def Loop_loop_def
      numeral_eq_Suc)

end
