(* ===== verification/LazyProperty.thy ===== *)
theory LazyProperty
  imports PyPrelude
begin

text \<open>
  The \<open>Prop\<close> descriptor of \<open>src/LazyProperty.py\<close>.  A \<open>Prop\<close> stored in a class body
  keeps its value and its lazy initialiser on the descriptor object itself; reading
  the attribute through an instance runs the initialiser once, on the instance, and
  stores its result.  The class's descriptors are a map from attribute names to
  \<open>prop\<close> records, shared by all instances; an instance's own dictionary is a map
  from (instance, name) pairs.  The lambdas given as \<open>lazy\<close> are expressions over
  the instance's attributes, so that reading one may force others.  Python's recursion
  limit is the fuel of attribute reads: a read that needs more nested reads than the
  fuel raises \<open>RecursionError\<close>.  An uncaught exception ends the program, so the model
  returns no state with an error.
\<close>

section \<open>Values, lazy initialisers and descriptors\<close>

datatype pyval = PNone | PInt int | PStr string

text \<open>The body of a \<open>lazy=lambda self: ...\<close> argument: literals, attributes of
  \<open>self\<close>, and \<open>+\<close>.\<close>

datatype lazy_expr = Lit pyval | SelfAttr string | Add lazy_expr lazy_expr

fun py_add :: "pyval \<Rightarrow> pyval \<Rightarrow> pyval py_result" where
  "py_add (PInt a) (PInt b) = Inr (PInt (a + b))"
| "py_add (PStr a) (PStr b) = Inr (PStr (a @ b))"
| "py_add _ _ = Inl TypeError"

record Prop =
  prop_value :: pyval
  lazy :: "lazy_expr option"

definition Prop_init :: "pyval \<Rightarrow> lazy_expr option \<Rightarrow> Prop" where
  "Prop_init value lz = \<lparr>prop_value = value, lazy = lz\<rparr>"

record lazy_state =
  props :: "string \<rightharpoonup> Prop"
  idict :: "nat \<times> string \<rightharpoonup> pyval"

text \<open>\<open>self.value = self.lazy(obj); self.lazy = None\<close> on the descriptor named \<open>x\<close>.\<close>

definition store_forced :: "string \<Rightarrow> pyval \<Rightarrow> lazy_state \<Rightarrow> lazy_state" where
  "store_forced x v st =
     st\<lparr>props := (props st)(x := map_option (\<lambda>p. p\<lparr>prop_value := v, lazy := None\<rparr>) (props st x))\<rparr>"

text \<open>\<open>obj.x\<close>: a \<open>Prop\<close> of the class is a data descriptor and wins over the instance
  dictionary; its \<open>__get__\<close> runs the initialiser when there is one.\<close>

fun get_attr :: "nat \<Rightarrow> lazy_state \<Rightarrow> nat \<Rightarrow> string \<Rightarrow> (pyval \<times> lazy_state) py_result"
and eval_lazy :: "nat \<Rightarrow> lazy_state \<Rightarrow> nat \<Rightarrow> lazy_expr \<Rightarrow> (pyval \<times> lazy_state) py_result" where
  "get_attr 0 st obj x = Inl RecursionError"
| "get_attr (Suc n) st obj x =
     (case props st x of
        Some p \<Rightarrow>
          (case lazy p of
             None \<Rightarrow> Inr (prop_value p, st)
           | Some e \<Rightarrow> py_bind (eval_lazy n st obj e) (\<lambda>(v, st'). Inr (v, store_forced x v st')))
      | None \<Rightarrow> (case idict st (obj, x) of Some v \<Rightarrow> Inr (v, st) | None \<Rightarrow> Inl AttributeError))"
| "eval_lazy n st obj (Lit v) = Inr (v, st)"
| "eval_lazy n st obj (SelfAttr a) = get_attr n st obj a"
| "eval_lazy n st obj (Add a b) =
     py_bind (eval_lazy n st obj a) (\<lambda>(va, st1).
       py_bind (eval_lazy n st1 obj b) (\<lambda>(vb, st2).
         py_bind (py_add va vb) (\<lambda>v. Inr (v, st2))))"

text \<open>\<open>__set__\<close>: only the value changes; a pending initialiser stays.\<close>

definition Prop_set :: "string \<Rightarrow> pyval \<Rightarrow> lazy_state \<Rightarrow> lazy_state" where
  "Prop_set x value st = st\<lparr>props := (props st)(x := map_option (\<lambda>p. p\<lparr>prop_value := value\<rparr>) (props st x))\<rparr>"

definition set_attr :: "nat \<Rightarrow> string \<Rightarrow> pyval \<Rightarrow> lazy_state \<Rightarrow> lazy_state" where
  "set_attr obj x v st =
     (case props st x of None \<Rightarrow> st\<lparr>idict := (idict st)((obj, x) \<mapsto> v)\<rparr> | Some _ \<Rightarrow> Prop_set x v st)"

section \<open>Programs over instances\<close>

text \<open>A statement \<open>obj.x = v\<close> or \<open>print(obj.x)\<close>; \<open>run_ops\<close> runs a sequence of them and
  returns what was printed.\<close>

datatype lazy_op = SetOp nat string pyval | PrintOp nat string

fun run_ops :: "nat \<Rightarrow> lazy_state \<Rightarrow> lazy_op list \<Rightarrow> (pyval list \<times> lazy_state) py_result" where
  "run_ops limit st [] = Inr ([], st)"
| "run_ops limit st (SetOp obj x v # ops) = run_ops limit (set_attr obj x v st) ops"
| "run_ops limit st (PrintOp obj x # ops) =
     py_bind (get_attr limit st obj x) (\<lambda>(v, st').
       py_bind (run_ops limit st' ops) (\<lambda>(out, st''). Inr (v # out, st'')))"

text \<open>The class \<open>Test\<close> of the module's \<open>__main__\<close> block.\<close>

definition Test_class :: lazy_state where
  "Test_class =
     \<lparr>props = [''answer'' \<mapsto> Prop_init PNone (Some (Add (SelfAttr ''question'') (Lit (PInt 1)))),
               ''question'' \<mapsto> Prop_init (PInt 41) None],
      idict = Map.empty\<rparr>"

text \<open>The class \<open>MyClass\<close> of the module's usage comment.\<close>

definition MyClass :: lazy_state where
  "MyClass =
     \<lparr>props = [''name'' \<mapsto> Prop_init (PStr []) None,
               ''title'' \<mapsto> Prop_init PNone (Some (Add (Lit (PStr ''Mr. '')) (SelfAttr ''name'')))],
      idict = Map.empty\<rparr>"

section \<open>Relations between states\<close>

text \<open>Reading attributes only ever forces descriptors: each one is unchanged or has no
  initialiser left.\<close>

definition prop_evolves :: "Prop option \<Rightarrow> Prop option \<Rightarrow> bool" where
  "prop_evolves a b =
     (case (a, b) of
        (None, None) \<Rightarrow> True
      | (Some p, Some q) \<Rightarrow> q = p \<or> lazy q = None
      | _ \<Rightarrow> False)"

definition evolves :: "lazy_state \<Rightarrow> lazy_state \<Rightarrow> bool" where
  "evolves st st' = (idict st' = idict st \<and> (\<forall>x. prop_evolves (props st x) (props st' x)))"

text \<open>Two states that differ at most in the value of a descriptor \<open>x\<close> whose initialiser
  has not run.\<close>

definition same_but_value :: "string \<Rightarrow> lazy_state \<Rightarrow> lazy_state \<Rightarrow> bool" where
  "same_but_value x st1 st2 =
     (idict st1 = idict st2 \<and> (\<forall>y. y \<noteq> x \<longrightarrow> props st1 y = props st2 y) \<and>
      (props st1 x = props st2 x \<or>
       (\<exists>p1 p2. props st1 x = Some p1 \<and> props st2 x = Some p2 \<and> lazy p1 = lazy p2 \<and> lazy p1 \<noteq> None)))"

definition rel_read :: "string \<Rightarrow> (pyval \<times> lazy_state) py_result \<Rightarrow> (pyval \<times> lazy_state) py_result \<Rightarrow> bool" where
  "rel_read x r1 r2 =
     (case (r1, r2) of
        (Inl e1, Inl e2) \<Rightarrow> e1 = e2
      | (Inr (v1, s1), Inr (v2, s2)) \<Rightarrow> v1 = v2 \<and> same_but_value x s1 s2
      | _ \<Rightarrow> False)"

text \<open>The attribute an initialiser reads before anything else: Python evaluates the
  left operand of \<open>+\<close> first.\<close>

fun first_read :: "lazy_expr \<Rightarrow> string option" where
  "first_read (Lit v) = None"
| "first_read (SelfAttr a) = Some a"
| "first_read (Add a b) = first_read a"

text \<open>The attributes an initialiser reads, and a ranking of the class's attributes under
  which every initialiser reads only attributes of lower rank.\<close>

fun lazy_reads :: "lazy_expr \<Rightarrow> string list" where
  "lazy_reads (Lit v) = []"
| "lazy_reads (SelfAttr a) = [a]"
| "lazy_reads (Add a b) = lazy_reads a @ lazy_reads b"

definition ranked :: "(string \<Rightarrow> nat) \<Rightarrow> lazy_state \<Rightarrow> bool" where
  "ranked r st \<longleftrightarrow>
     (\<forall>x p e. props st x = Some p \<longrightarrow> lazy p = Some e \<longrightarrow> (\<forall>a\<in>set (lazy_reads e). r a < r x))"

section \<open>Properties\<close>

lemma prop_evolves_refl [simp]: "prop_evolves a a"
  by (simp add: prop_evolves_def split: option.splits)

lemma prop_evolves_trans: "prop_evolves a b \<Longrightarrow> prop_evolves b c \<Longrightarrow> prop_evolves a c"
  by (auto simp: prop_evolves_def split: option.splits)

lemma evolves_refl [simp]: "evolves st st"
  by (simp add: evolves_def)

lemma evolves_trans: "evolves s1 s2 \<Longrightarrow> evolves s2 s3 \<Longrightarrow> evolves s1 s3"
  unfolding evolves_def by (metis prop_evolves_trans)

lemma evolves_store_forced: "evolves st (store_forced x v st)"
  by (simp add: evolves_def store_forced_def prop_evolves_def split: option.splits)

lemma evolves_dom: "evolves st st' \<Longrightarrow> (props st' x = None) = (props st x = None)"
  unfolding evolves_def prop_evolves_def
  by (erule conjE, erule allE [of _ x]) (simp split: option.splits)

lemma reads_evolve:
  shows "get_attr n st obj y = Inr r \<Longrightarrow> evolves st (snd r)"
    and "eval_lazy n st obj e = Inr r \<Longrightarrow> evolves st (snd r)"
proof (induction n st obj y and n st obj e arbitrary: r and r rule: get_attr_eval_lazy.induct)
  case (2 n st obj x)
  then show ?case
    by (auto simp: py_bind_def split: option.splits sum.splits prod.splits)
       (metis evolves_trans evolves_store_forced snd_conv)
next
  case (5 n st obj a b)
  then show ?case
    by (auto simp: py_bind_def split: sum.splits prod.splits intro: evolves_trans)
qed (auto)

lemma get_attr_forced:
  "props st x = Some p \<Longrightarrow> lazy p = None \<Longrightarrow> get_attr (Suc n) st obj x = Inr (prop_value p, st)"
  by simp

lemma read_forces:
  assumes "get_attr n st obj x = Inr (v, st')" "props st x \<noteq> None"
  shows "\<exists>q. props st' x = Some q \<and> lazy q = None \<and> prop_value q = v"
proof (cases n)
  case (Suc m)
  from assms(2) obtain p where p: "props st x = Some p" by auto
  show ?thesis
  proof (cases "lazy p")
    case None
    with assms(1) Suc p show ?thesis by simp
  next
    case (Some e)
    with assms(1) Suc p obtain st1 where ev: "eval_lazy m st obj e = Inr (v, st1)"
      and st': "st' = store_forced x v st1"
      by (auto simp: py_bind_def split: sum.splits)
    from reads_evolve(2) [OF ev] p have "props st1 x \<noteq> None" by (simp add: evolves_dom)
    with st' show ?thesis by (auto simp: store_forced_def)
  qed
qed (use assms in simp)

lemma same_but_value_refl [simp]: "same_but_value x st st"
  by (simp add: same_but_value_def)

lemma same_but_value_store_forced:
  assumes "same_but_value x s1 s2"
  shows "same_but_value x (store_forced y v s1) (store_forced y v s2)"
  using assms unfolding same_but_value_def store_forced_def by auto

lemma rel_read_bind:
  assumes "rel_read x r1 r2"
    and "\<And>v s1 s2. r1 = Inr (v, s1) \<Longrightarrow> same_but_value x s1 s2 \<Longrightarrow> rel_read x (f v s1) (f v s2)"
  shows "rel_read x (py_bind r1 (\<lambda>(v, s). f v s)) (py_bind r2 (\<lambda>(v, s). f v s))"
proof -
  from assms(1) consider (err) e where "r1 = Inl e" "r2 = Inl e"
    | (ok) v s1 s2 where "r1 = Inr (v, s1)" "r2 = Inr (v, s2)" "same_but_value x s1 s2"
    by (cases r1; cases r2) (auto simp: rel_read_def)
  then show ?thesis
  proof cases
    case err
    then show ?thesis by (simp add: rel_read_def)
  next
    case ok
    then show ?thesis by (simp add: assms(2))
  qed
qed

lemma rel_read_result:
  "same_but_value x s1 s2 \<Longrightarrow> rel_read x (py_bind r (\<lambda>v. Inr (v, s1))) (py_bind r (\<lambda>v. Inr (v, s2)))"
  by (cases r) (simp_all add: rel_read_def py_bind_def)

lemma rel_read_value: "rel_read x r1 r2 \<Longrightarrow> map_sum id fst r1 = map_sum id fst r2"
  by (cases r1; cases r2) (auto simp: rel_read_def)

lemma same_but_value_props:
  assumes "same_but_value x st1 st2"
  obtains "props st2 y = props st1 y"
  | p1 p2 where "y = x" "props st1 x = Some p1" "props st2 x = Some p2" "lazy p2 = lazy p1" "lazy p1 \<noteq> None"
  using assms unfolding same_but_value_def by (metis)

lemma same_but_value_reads:
  shows "same_but_value x st1 st2 \<Longrightarrow> rel_read x (get_attr n st1 obj y) (get_attr n st2 obj y)"
    and "same_but_value x st1 st2 \<Longrightarrow> rel_read x (eval_lazy n st1 obj e) (eval_lazy n st2 obj e)"
proof (induction n st1 obj y and n st1 obj e arbitrary: st2 and st2 rule: get_attr_eval_lazy.induct)
  case (1 st obj x)
  then show ?case by (simp add: rel_read_def)
next
  case (2 n st1 obj y)
  have forced: "rel_read x (py_bind (eval_lazy n st1 obj e) (\<lambda>(v, s). Inr (v, store_forced y v s)))
                           (py_bind (eval_lazy n st2 obj e) (\<lambda>(v, s). Inr (v, store_forced y v s)))"
    if "props st1 y = Some p" "lazy p = Some e" for p e
    by (rule rel_read_bind [OF "2.IH" [OF that "2.prems"]])
       (simp add: rel_read_def same_but_value_store_forced)
  from "2.prems" show ?case
  proof (cases rule: same_but_value_props [where y = y])
    case 1
    with "2.prems" forced show ?thesis
      by (auto simp: rel_read_def same_but_value_def split: option.splits)
  next
    case (2 p1 p2)
    with forced show ?thesis by (auto split: option.splits)
  qed
next
  case (5 n st1 obj a b)
  show ?case
    unfolding eval_lazy.simps
    by (rule rel_read_bind [OF "5.IH"(1) [OF "5.prems"]], rule rel_read_bind [OF "5.IH"(2)])
       (auto intro: rel_read_result)
qed (simp_all add: rel_read_def)

lemma same_but_value_set:
  "props st x = Some p \<Longrightarrow> lazy p \<noteq> None \<Longrightarrow> same_but_value x st (set_attr obj x v st)"
  by (simp add: same_but_value_def set_attr_def Prop_set_def)

lemma first_read_error:
  "first_read e = Some y \<Longrightarrow> get_attr n st obj y = Inl err \<Longrightarrow> eval_lazy n st obj e = Inl err"
  by (induction e) (auto simp: py_bind_def split: option.splits sum.splits prod.splits)

lemma py_add_not_recursion: "py_add a b \<noteq> Inl RecursionError"
  by (cases "(a, b)" rule: py_add.cases) simp_all

lemma ranked_evolves:
  assumes ev: "evolves st st'" and rk: "ranked r st"
  shows "ranked r st'"
  unfolding ranked_def
proof (intro allI impI)
  fix x p e assume p: "props st' x = Some p" and e: "lazy p = Some e"
  from ev have "prop_evolves (props st x) (props st' x)" by (simp add: evolves_def)
  with p e have "props st x = Some p" by (auto simp: prop_evolves_def split: option.splits)
  with rk e show "\<forall>a\<in>set (lazy_reads e). r a < r x" by (auto simp: ranked_def)
qed

lemma ranked_reads:
  shows "ranked r st \<Longrightarrow> r y < n \<Longrightarrow> get_attr n st obj y \<noteq> Inl RecursionError"
    and "ranked r st \<Longrightarrow> \<forall>a\<in>set (lazy_reads e). r a < n \<Longrightarrow> eval_lazy n st obj e \<noteq> Inl RecursionError"
proof (induction n st obj y and n st obj e rule: get_attr_eval_lazy.induct)
  case (2 n st obj y)
  show ?case
  proof (cases "props st y")
    case (Some p)
    show ?thesis
    proof (cases "lazy p")
      case (Some e)
      with \<open>props st y = Some p\<close> "2.prems" have "\<forall>a\<in>set (lazy_reads e). r a < n"
        unfolding ranked_def by fastforce
      with "2.IH" [OF \<open>props st y = Some p\<close> Some "2.prems"(1)] \<open>props st y = Some p\<close> Some show ?thesis
        by (auto simp: py_bind_def split: sum.splits)
    qed (use Some in simp)
  qed (simp split: option.splits)
next
  case (5 n st obj a b)
  show ?case
  proof (cases "eval_lazy n st obj a")
    case (Inl err)
    with "5.IH"(1) "5.prems" show ?thesis by (auto simp: py_bind_def)
  next
    case (Inr res)
    obtain va st1 where res: "res = (va, st1)" by fastforce
    have "ranked r st1" using ranked_evolves [OF reads_evolve(2) [OF Inr [unfolded res]] "5.prems"(1)] by simp
    moreover have "\<forall>a\<in>set (lazy_reads b). r a < n" using "5.prems"(2) by simp
    ultimately have "eval_lazy n st1 obj b \<noteq> Inl RecursionError" by (rule "5.IH"(2))
    with Inr res show ?thesis
      by (auto simp: py_bind_def py_add_not_recursion split: sum.splits)
  qed
qed auto

text \<open>The \<open>__main__\<close> block of \<open>LazyProperty.py\<close> prints 73 and then 37: the lazy
  \<open>answer\<close> is computed on first read from the \<open>question\<close> assigned just before, and the
  later assignment to \<open>answer\<close> is what the second read returns.\<close>

lemma LazyProperty_demo:
  "map_sum id fst (run_ops 1000 Test_class
     [SetOp 0 ''question'' (PInt 72), PrintOp 0 ''answer'', SetOp 0 ''answer'' (PInt 37), PrintOp 0 ''answer''])
   = Inr [PInt 73, PInt 37]"
  by code_simp

text \<open>C9: Assigning a lazy property before its first read has no effect on that read:
  \<open>__set__\<close> leaves the initialiser in place, and \<open>__get__\<close> overwrites the assigned
  value with the initialiser's result.  The usage comment says the property "can be
  assigned a value"; it can only after it has been read.\<close>

theorem assignment_before_read_lost:
  assumes "props st x = Some p" "lazy p \<noteq> None"
  shows "map_sum id fst (get_attr n (set_attr o1 x v st) o2 x) = map_sum id fst (get_attr n st o2 x)"
  using same_but_value_reads(1) [OF same_but_value_set [OF assms]]
  by (metis rel_read_value)

theorem assignment_before_read_lost_witness:
  "map_sum id fst (get_attr 5 (set_attr 0 ''answer'' (PInt 37) Test_class) 0 ''answer'') = Inr (PInt 42)"
proof -
  have "map_sum id fst (get_attr 5 (set_attr 0 ''answer'' (PInt 37) Test_class) 0 ''answer'') =
        map_sum id fst (get_attr 5 Test_class 0 ''answer'')"
    by (rule assignment_before_read_lost) (simp add: Test_class_def Prop_init_def)+
  also have "\<dots> = Inr (PInt 42)"
    by (simp add: Test_class_def Prop_init_def numeral_eq_Suc py_bind_def)
  finally show ?thesis .
qed

text \<open>C10: A \<open>Prop\<close> keeps its value on the descriptor, which the class shares: once its
  initialiser has run, a value assigned through one instance is what every instance
  reads.\<close>

theorem Prop_shared_between_instances:
  assumes "props st x = Some p" "lazy p = None"
  shows "get_attr (Suc n) (set_attr o1 x v st) o2 x = Inr (v, set_attr o1 x v st)"
  using assms by (simp add: set_attr_def Prop_set_def)

theorem Prop_shared_between_instances_witness:
  "get_attr 5 (set_attr 0 ''question'' (PInt 72) Test_class) 1 ''question'' =
     Inr (PInt 72, set_attr 0 ''question'' (PInt 72) Test_class)"
  using Prop_shared_between_instances [of Test_class "''question''" "Prop_init (PInt 41) None" 4 0 "PInt 72" 1]
  by (simp add: Test_class_def Prop_init_def)

text \<open>C11: The initialiser runs at most once: after a read of a \<open>Prop\<close> succeeds, every
  later read, through any instance and with any recursion limit, returns the same
  value and changes nothing.\<close>

theorem read_memoised:
  assumes "get_attr n st o1 x = Inr (v, st')" "props st x \<noteq> None"
  shows "get_attr (Suc m) st' o2 x = Inr (v, st')"
  using read_forces [OF assms] by auto

theorem read_memoised_witness:
  "get_attr 6 (store_forced ''answer'' (PInt 42) Test_class) 1 ''answer'' =
     Inr (PInt 42, store_forced ''answer'' (PInt 42) Test_class)"
  using read_memoised [of 5 Test_class 0 "''answer''" "PInt 42" "store_forced ''answer'' (PInt 42) Test_class" 5 1]
  by (simp add: Test_class_def Prop_init_def numeral_eq_Suc py_bind_def)

text \<open>C12: Reading attributes changes no instance dictionary and no descriptor other
  than by running its initialiser: every descriptor is unchanged or forced afterwards.\<close>

theorem reads_only_force:
  assumes "get_attr n st obj y = Inr (v, st')"
  shows "prop_evolves (props st x) (props st' x) \<and> idict st' = idict st"
  using reads_evolve(1) [OF assms] by (simp add: evolves_def)

theorem reads_only_force_witness:
  "prop_evolves (props Test_class ''answer'') (props (store_forced ''answer'' (PInt 42) Test_class) ''answer'') \<and>
   idict (store_forced ''answer'' (PInt 42) Test_class) = idict Test_class"
  using reads_only_force [of 5 Test_class 0 "''answer''" "PInt 42" "store_forced ''answer'' (PInt 42) Test_class" "''answer''"]
  by (simp add: Test_class_def Prop_init_def numeral_eq_Suc py_bind_def)

text \<open>C13: An initialiser whose first step reads the property itself raises
  \<open>RecursionError\<close> whatever the recursion limit: the initialiser is still pending while
  it runs, so the read starts it again.\<close>

theorem self_read_recursion:
  assumes "props st x = Some p" "lazy p = Some e" "first_read e = Some x"
  shows "get_attr n st obj x = Inl RecursionError"
proof (induction n)
  case (Suc n)
  with assms first_read_error [OF assms(3) Suc] show ?case by (simp add: py_bind_def)
qed simp

definition Loopy_class :: lazy_state where
  "Loopy_class = \<lparr>props = [''a'' \<mapsto> Prop_init PNone (Some (Add (SelfAttr ''a'') (Lit (PInt 1))))], idict = Map.empty\<rparr>"

theorem self_read_recursion_witness:
  "get_attr 1000 Loopy_class 0 ''a'' = Inl RecursionError"
  by (rule self_read_recursion [of _ _ "Prop_init PNone (Some (Add (SelfAttr ''a'') (Lit (PInt 1))))"])
     (simp add: Loopy_class_def Prop_init_def)+

text \<open>In the usage comment's \<open>MyClass\<close>, the first read of \<open>title\<close> after
  \<open>obj.name = s\<close> is \<open>"Mr. " + s\<close> for a string \<open>s\<close>, and raises \<open>TypeError\<close> for an
  integer.\<close>

lemma MyClass_title:
  "map_sum id fst (get_attr (Suc (Suc n)) (set_attr obj ''name'' (PStr s) MyClass) obj ''title'') =
     Inr (PStr (''Mr. '' @ s)) \<and>
   map_sum id fst (get_attr (Suc (Suc n)) (set_attr obj ''name'' (PInt i) MyClass) obj ''title'') =
     Inl TypeError"
  by (simp add: MyClass_def Prop_init_def set_attr_def Prop_set_def py_bind_def)

text \<open>C17: Reads end when the initialisers' dependencies are well founded: if a ranking
  of the attributes has every initialiser read only attributes of lower rank, a read
  of \<open>x\<close> with a recursion limit above the rank of \<open>x\<close> never raises
  \<open>RecursionError\<close> (it returns, or raises what the initialiser raises).\<close>

theorem ranked_read_no_recursion:
  assumes "ranked r st" "r x < n"
  shows "get_attr n st obj x \<noteq> Inl RecursionError"
  using ranked_reads(1) [OF assms] .

theorem ranked_read_no_recursion_witness:
  "get_attr 2 Test_class 0 ''answer'' \<noteq> Inl RecursionError"
proof (rule ranked_read_no_recursion [where r = "\<lambda>a. if a = ''answer'' then 1 else 0"])
  show "ranked (\<lambda>a. if a = ''answer'' then 1 else 0) Test_class"
    by (auto simp: ranked_def Test_class_def Prop_init_def split: if_splits)
qed simp

text \<open>An attribute that is not a \<open>Prop\<close> of the class lives in each instance's own
  dictionary: assigning it through one instance leaves what every other instance reads
  unchanged: the other instance reads the same value, or gets the same exception (the
  isolation a \<open>Prop\<close> lacks, C10).\<close>

lemma instance_attr_isolated:
  assumes "props st x = None" "o1 \<noteq> o2"
  shows "map_sum id fst (get_attr n (set_attr o1 x v st) o2 x) = map_sum id fst (get_attr n st o2 x)"
  using assms by (cases n) (simp_all add: set_attr_def split: option.splits)

end
