(* ===== verification/Spec2Isabelle.thy ===== *)
theory Spec2Isabelle
  imports TreeLayout TreeNodes LoopOps LazyProperty
begin

text \<open>
  A verification development of the three modules of \<open>src/\<close>: the tree renderer
  \<open>printTree.py\<close>, the C-like loop helper \<open>Loop.py\<close> and the lazy property
  descriptor \<open>LazyProperty.py\<close>.  The modules do not call one another; they share
  only the modelling of Python: exceptions as values and the CPython built-ins they
  use, in the prelude.

  \<^bold>\<open>Theories.\<close>
  \<^item> \<open>PyPrelude\<close>: \<open>py_error\<close> (the exceptions raised: \<open>IndexError\<close>, \<open>ValueError\<close>,
    \<open>AttributeError\<close>, \<open>RecursionError\<close>, \<open>TypeError\<close>) and \<open>'a py_result =
    py_error + 'a\<close>, with \<open>py_bind\<close> for sequencing and \<open>py_seq\<close> for a comprehension
    whose elements may raise; \<open>str.center\<close> (\<open>py_center\<close>, CPython's formula
    \<open>left = marg div 2 + (marg AND width AND 1)\<close>), \<open>str.index\<close> (\<open>py_index\<close> over
    \<open>find_sub\<close>), \<open>sep.join\<close> (\<open>py_join\<close>), \<open>s * n\<close> (\<open>py_repeat\<close>); lemmas on
    centring arithmetic, substring search in padded strings and the positions of a
    character.
  \<^item> \<open>TreeLines\<close>: \<open>printTree.py\<close>.  \<open>tree\<close> is the \<open>TreeNode\<close> of the usage comment,
    \<open>node_info\<close> the adapter \<open>lambda n:(n.label,n.children)\<close>.  The function
    \<open>treeLines\<close> (lines 39--61) is split as its body is: \<open>treeLines\<close> is the
    recursion over the \<open>getInfo\<close> callback (lines 39--41), \<open>treeLines_node\<close> the
    layout of one node from its label and its children's blocks (lines 42--61: the
    width, the label line, the links line, the three \<open>index\<close> calls, the span line and
    the merged rows).  \<open>treeLines_tree\<close> is the same recursion on \<open>tree\<close>, and
    \<open>printTree\<close> (lines 63--65) the text written to standard output.
  \<^item> \<open>TreeLayout\<close>: the shape of the blocks: \<open>block_width\<close> (the code's
    \<open>max(sum(widths) + 2*len(widths) - 1, len(label))\<close>), \<open>bar_cols\<close> (connector
    columns), \<open>span_shape\<close>; the closed form of a node's block
    (\<open>treeLines_node_layout\<close>) and the theorems on whole trees.
  \<^item> \<open>TreeNodes\<close>: the objects of the \<open>__main__\<close> block of \<open>printTree.py\<close>.  Class
    \<open>TreeNode\<close> (lines 70--73) is the record \<open>tree_node\<close> in a store \<open>node_store\<close>,
    a list indexed by address in allocation order; \<open>TreeNode_init\<close> allocates the
    object and appends its address to its parent's children; \<open>demo_main\<close> is the
    construction of lines 75--86 (the rebinding of \<open>n02\<close> included) and
    \<open>demo_print\<close> the call of line 88, through \<open>heap_info\<close>, the adapter read in
    the store.  \<open>heap_tree\<close> reads the tree below an address back into \<open>tree\<close>, with
    the number of objects as fuel; \<open>store_ok\<close> (children at later addresses) holds of
    every store built by constructor calls with existing parents.
  \<^item> \<open>Loop\<close>: \<open>Loop.py\<close>.  The object is the record \<open>loop_obj\<close> (\<open>_firstPass\<close>,
    \<open>_value\<close>, and \<open>_increment\<close> as an optional field that nothing ever sets); every
    state-changing method (\<open>__init__\<close>, \<open>start\<close>, \<open>next\<close>, \<open>up\<close>, \<open>down\<close>, \<open>upTo\<close>,
    \<open>downTo\<close>, \<open>loop\<close>, \<open>until\<close>) is a function \<open>Loop_*\<close> on it, and \<open>__invert__\<close>,
    \<open>__neg__\<close> are \<open>Loop_invert\<close>, \<open>Loop_neg\<close>.  A \<open>while\<close> statement whose condition
    is a chain of calls is \<open>run_while\<close>; the chains of the demos are
    \<open>start_next_loop\<close>, \<open>next_until\<close>, \<open>start_upTo\<close>, \<open>upTo_only\<close>, \<open>down_until\<close>.
    The objects a program can build are \<open>loop_reach\<close>, an inductive closure of
    \<open>Loop_init\<close> under \<open>apply_call\<close>; the contract of the class is the C loop
    \<open>c_for\<close>.
  \<^item> \<open>PyNumbers\<close>: CPython's \<open>str(int)\<close> (\<open>py_str_int\<close>) and \<open>int(str)\<close>
    (\<open>py_int_str\<close>: whitespace, sign, underscore-separated digit groups,
    \<open>ValueError\<close>), \<open>//\<close>, \<open>%\<close>, \<open>divmod\<close> (\<open>ZeroDivisionError\<close>), shifts
    (\<open>ValueError\<close> on a negative count), tuple indexing (\<open>py_getitem\<close>) and \<open>sum\<close>;
    the round trip \<open>py_int_str (py_str_int i) = Inr i\<close>.
  \<^item> \<open>LoopOps\<close>: the forwarding operators of \<open>Loop\<close> (lines 79--120), one definition
    \<open>Loop_<name>\<close> per dunder \<open>__<name>__\<close>; Python's \<open>+\<close> on tuples as an
    instantiation of \<open>plus\<close> for lists; iteration of a loop object through
    \<open>__getitem__\<close> (\<open>loop_iter\<close>, a terminating \<open>function\<close>); and the sixth demo
    (\<open>fib_header\<close>); the property \<open>value\<close> (\<open>Loop_value\<close>) and the loop of the
    usage comment (\<open>usage_header\<close>, \<open>usage_example\<close>, lines 7--9), which raises
    \<open>AttributeError\<close> at \<open>.stop\<close> (\<open>usage_comment_raises\<close>).
  \<^item> \<open>LazyProperty\<close>: \<open>LazyProperty.py\<close>.  A class's \<open>Prop\<close> descriptors are the map
    \<open>props\<close> of a \<open>lazy_state\<close>, shared by all instances; the instances' own
    dictionaries are \<open>idict\<close>.  \<open>Prop_init\<close>, \<open>get_attr\<close>/\<open>eval_lazy\<close> (attribute
    read and \<open>__get__\<close>, running the initialiser, a \<open>lazy_expr\<close> over \<open>self\<close>'s
    attributes) and \<open>Prop_set\<close>/\<open>set_attr\<close> (\<open>__set__\<close>) are the methods;
    \<open>run_ops\<close> runs the statements of the \<open>__main__\<close> block on \<open>Test_class\<close>.
  \<^item> This theory: the tree \<open>demo_tree\<close> the \<open>__main__\<close> block of \<open>printTree.py\<close>
    builds, read back from its store, and the text the block prints.

  \<^bold>\<open>What is proved.\<close>  For the renderer (\<open>TreeLayout\<close>): on trees whose labels
  each have a non-space character, \<open>treeLines\<close> returns a rectangle of the code's
  width with the label centred on its first line (C1); the connectors stand over the
  centres of the child labels (C2); the span line has its exact shape, with
  non-negative underscore counts (C3); the number of lines is the recursive count
  \<open>block_height\<close> (C4), at most \<open>3d - 2\<close> for depth \<open>d\<close> (C21); a leaf is its label
  (C5); every character drawn is a label character, a space, \<open>_\<close> or \<open>|\<close> (C16);
  \<open>printTree\<close> never raises on a tree within the recursion limit, whatever its labels
  (C18); every child's block appears unchanged in its parent's rows, at the column of
  its field (C19); every label appears intact on some line (C22, \<open>tree_labels\<close> lists
  the labels).  For the objects of the demo (\<open>TreeNodes\<close>): constructor calls build
  exactly the intended tree, children in call order (C24), and \<open>treeLines\<close> through
  the objects computes what it computes on the tree read back from them when the
  recursion limit is at least the number of objects (C23).  For \<open>Loop\<close>: \<open>next()\<close>
  without argument raises on every object a program can build (C6), and it is the only
  call that raises (C15); the \<open>start/next/loop\<close> chain refines the C loop (C7);
  \<open>start/upTo\<close> terminates with the arithmetic progression (C8); a \<open>next/until\<close>
  loop exits once its condition holds (C14); the short forms \<open>upTo\<close>, \<open>downTo\<close>,
  \<open>until\<close> are the chains the usage comment names (C20).  For \<open>LazyProperty\<close>: an
  assignment before the first read is lost (C9); the value is shared by all instances
  (C10); the initialiser runs at most once (C11); reads only force descriptors (C12); a
  self-reading initialiser raises \<open>RecursionError\<close> (C13); with well-founded
  dependencies between initialisers a read within the recursion limit never raises
  \<open>RecursionError\<close> (C17).

  The other lemmas are library facts and evaluations that document the code's
  behaviour on the inputs the modules themselves use: the printed sample tree
  (\<open>printTree_demo\<close>, ten lines), the single-child layout
  (\<open>treeLines_single_child\<close>), a cyclic \<open>getInfo\<close> (\<open>treeLines_cycle\<close>), the
  \<open>__main__\<close> demos of \<open>Loop.py\<close> and \<open>LazyProperty.py\<close> (\<open>Loop_demos\<close>,
  \<open>fib_demo\<close>, \<open>LazyProperty_demo\<close>, \<open>MyClass_title\<close>), \<open>~i\<close> on a loop
  (\<open>Loop_invert_off_by_one\<close>), the usage comment's \<open>.stop\<close> (\<open>usage_comment_raises\<close>),
  and the forwarding operators over CPython's \<open>int\<close>/\<open>str\<close>, \<open>divmod\<close>, shifts and
  tuple indexing.

  \<^bold>\<open>Fuel.\<close>  Python's recursion limit bounds the nesting of \<open>treeLines\<close> calls
  and of attribute reads; both models take it as a \<open>nat\<close> argument and raise
  \<open>RecursionError\<close> at 0.  The demo theorems use 1000, CPython's default, which exceeds
  the sample tree's depth 4 and the two nested reads of the \<open>Test\<close> demo.  A
  \<open>while\<close> loop over a \<open>Loop\<close> object may run forever, so \<open>run_while\<close> takes fuel
  for the number of condition tests and returns \<open>None\<close> when it runs out; C7 and C8
  state that enough fuel gives the result (and C7 that it gives it exactly when the C
  loop finishes within the same fuel).  \<open>heap_tree\<close> reads a store with the number of
  objects as fuel: in a store built by constructor calls every path goes to later
  addresses, so no path is longer than that and the read-back is never truncated
  (\<open>heap_tree_depth\<close>).

  \<^bold>\<open>Not modelled.\<close>  Console output beyond the printed text; Unicode width
  (one code point is one column, exact for the ASCII labels); floating point:
  \<open>__float__\<close>, \<open>**\<close> with a negative exponent and \<open>/\<close> on ints (whose results
  are floats; \<open>/\<close> is modelled on a field, the demo uses rationals, exact for its
  halvings); \<open>__int__\<close> on a value that is already an \<open>int\<close> (the identity);
  operators on value types other than the ones named in \<open>LoopOps\<close>; state changes made
  before an uncaught exception (the program ends with the exception); initialisers
  other than sums of literals and attributes of \<open>self\<close>; a \<open>TreeNode\<close> whose
  \<open>children\<close> list is changed other than by the constructor (the demo never does);
  the limit of 4300 digits CPython 3.11 puts on \<open>str(int)\<close> and \<open>int(str)\<close>, and the
  \<open>OverflowError\<close> of a huge shift count (\<open>py_str_int\<close> and \<open>py_lshift\<close> are
  total); the prints of the inner \<open>for\<close> loop of the first \<open>Loop\<close> demo (line 126:
  \<open>run_while\<close> records the values the loop body sees); the frames the recursion limit
  counts besides one per nested \<open>treeLines\<close> call or attribute read.
  What remains of the sources unmapped is comments, blank lines and \<open>__float__\<close>.
\<close>

section \<open>The sample tree of \<open>printTree.py\<close>\<close>

text \<open>The tree the module's \<open>__main__\<close> block builds with \<open>TreeNode(label, parent)\<close>
  (lines 75--86), as \<open>heap_tree\<close> reads it back from the store \<open>demo_main\<close> leaves:
  children are appended in construction order, and the last two nodes go under the
  second \<open>02\<close>, the one \<open>n02\<close> names after its rebinding.\<close>

definition demo_tree :: tree where
  "demo_tree = Node ''05''
     [Node ''02'' [Node ''01'' []],
      Node ''04'' [Node ''01'' [], Node ''02'' [Node ''03'' [], Node ''06'' []], Node ''09'' [],
                   Node ''08'' [], Node ''02'' []],
      Node ''06'' []]"

lemma demo_main_tree:
  "parents_ok [(''05'', None), (''02'', Some 0), (''04'', Some 0), (''06'', Some 0), (''01'', Some 1),
       (''01'', Some 2), (''02'', Some 2), (''09'', Some 2), (''08'', Some 2), (''02'', Some 2),
       (''03'', Some 6), (''06'', Some 6)] 0 \<and>
   demo_main = (0, TreeNode_build [(''05'', None), (''02'', Some 0), (''04'', Some 0), (''06'', Some 0), (''01'', Some 1),
       (''01'', Some 2), (''02'', Some 2), (''09'', Some 2), (''08'', Some 2), (''02'', Some 2),
       (''03'', Some 6), (''06'', Some 6)] []) \<and>
   heap_tree (length (snd demo_main)) (snd demo_main) 0 = demo_tree"
  by (simp add: demo_main_def TreeNode_init_def demo_tree_def)

lemma demo_print_tree: "demo_print = printTree 1000 node_info demo_tree"
proof -
  let ?h = "TreeNode_build [(''05'', None), (''02'', Some 0), (''04'', Some 0), (''06'', Some 0), (''01'', Some 1),
       (''01'', Some 2), (''02'', Some 2), (''09'', Some 2), (''08'', Some 2), (''02'', Some 2),
       (''03'', Some 6), (''06'', Some 6)] []"
  have m: "demo_main = (0, ?h)" using demo_main_tree by blast
  have p: "parents_ok [(''05'', None), (''02'', Some 0), (''04'', Some 0), (''06'', Some 0), (''01'', Some 1),
       (''01'', Some 2), (''02'', Some 2), (''09'', Some 2), (''08'', Some 2), (''02'', Some 2),
       (''03'', Some 6), (''06'', Some 6)] 0" using demo_main_tree by blast
  have "demo_print = printTree 1000 (heap_info ?h) 0" by (simp only: demo_print_def m prod.case)
  also have "\<dots> = printTree 1000 node_info (heap_tree (length ?h) ?h 0)"
    by (rule store_printTree [OF p refl]) (simp add: TreeNode_init_def)
  also have "\<dots> = printTree 1000 node_info demo_tree"
    using demo_main_tree by (simp only: m snd_conv)
  finally show ?thesis .
qed

text \<open>What the module's \<open>__main__\<close> block prints: \<open>printTree(root, lambda
  n:(n.label,n.children))\<close> on the objects lines 75--86 build, with Python's default
  recursion limit, writes the ten lines of the module comment, each 34 characters wide
  and followed by a newline.\<close>

lemma printTree_demo:
  "demo_print = Inr (concat (map (\<lambda>line. line @ ''\<newline>'')
     [''                05                '',
      ''  ______________|______________   '',
      '' |              |              |  '',
      '' 02             04             06 '',
      '' |    __________|_________        '',
      '' 01  |      |     |   |   |       '',
      ''     01     02    09  08  02      '',
      ''           _|_                    '',
      ''          |   |                   '',
      ''          03  06                  '']))"
  unfolding demo_print_tree by code_simp

text \<open>A node with one leaf child, both labels one character long, renders as three
  lines two characters wide: the width is \<open>1 + 2*1 - 1 = 2\<close>, and \<open>center\<close> puts the
  odd padding on the right.\<close>

lemma treeLines_single_child:
  "treeLines_tree (Node [a] [Node [b] []]) = Inr [[a, CHR '' ''], ''| '', [b, CHR '' '']]"
  by (simp add: treeLines_node_def py_center_def Let_def py_index_def py_repeat_def)

end
